theory Spec2Isabelle
  imports Main
begin

section \<open>The step executor of automatix (automatix/command.py)\<close>

text \<open>
  A shallow embedding of the class \<open>Command\<close>. Python exceptions are values of
  the type \<open>error\<close>; a method that may raise returns \<open>error + 'a\<close>, with
  \<open>Inl\<close> for the exception. Strings are lists of characters; the line feed is
  \<open>CHR 0x0A\<close>.
\<close>

subsection \<open>Exceptions and decoded values\<close>

text \<open>
  \<open>UnknownCommandException\<close> and \<open>AbortException\<close> are the two classes command.py
  declares; the others are the built-in exceptions its library calls raise.
  \<open>NotModelled\<close> is no exception: it marks a format string that uses a feature of
  \<open>str.format\<close> left out of this embedding (conversions, format specifications,
  attribute and index access), where nothing is said about the result.
\<close>

datatype error =
    UnknownCommandException string
  | AbortException string
  | KeyError string
  | IndexError
  | ValueError
  | AttributeError
  | StopIteration
  | EOFError
  | CalledProcessError int
  | KeyboardInterrupt
  | NotModelled

text \<open>
  What the configuration decoder hands over as the value of a pipeline entry: a
  text, nothing (\<open>None\<close>), or a mapping, whose items are kept in their order.
\<close>

datatype yaml_value = Str string | Null | Dict "(string \<times> yaml_value) list"

text \<open>
  The attributes of a \<open>Command\<close> object. \<open>vars\<close> is a reference to the dict shared
  by all steps of a run; the dict objects themselves live in the store of the
  environment below. \<open>value_tmpl\<close> is the attribute \<open>value\<close> and \<open>imports_list\<close>
  the attribute \<open>imports\<close>.
\<close>

record command =
  pipeline_cmd :: "(string \<times> yaml_value) list"
  index :: int
  systems :: "string \<rightharpoonup> string"
  vars :: nat
  imports_list :: "string list"
  orig_key :: string
  assignment :: bool
  assignment_var :: string
  key :: string
  value_tmpl :: yaml_value

subsection \<open>Regular expressions used on the key\<close>

definition newline :: char where
  "newline = CHR 0x0A"

definition starts_with :: "string \<Rightarrow> string \<Rightarrow> bool" where
  "starts_with p s = (take (length p) s = p)"

text \<open>
  \<open>re.search\<close> with a pattern that starts with a literal \<open>p\<close>: the text after the
  leftmost occurrence of \<open>p\<close>, or \<open>None\<close> when \<open>p\<close> does not occur.
\<close>

fun after_first :: "string \<Rightarrow> string \<Rightarrow> string option" where
  "after_first p [] = (if p = [] then Some [] else None)"
| "after_first p (c # cs) =
     (if starts_with p (c # cs) then Some (drop (length p) (c # cs))
      else after_first p cs)"

text \<open>\<open>(.*)\<close> after a literal: the dot matches every character but the line feed.\<close>

definition rest_of_line :: "string \<Rightarrow> string" where
  "rest_of_line s = takeWhile (\<lambda>c. c \<noteq> newline) s"

text \<open>
  \<open>re.search('(.*)=(.*)', key).group(1, 2)\<close> for a key that holds an \<open>=\<close>. The
  leftmost match starts at the beginning of the line of the first \<open>=\<close>; the first
  group is greedy, so it ends before the last \<open>=\<close> of that line, and the second
  group is the rest of the line.
\<close>

definition assignment_line :: "string \<Rightarrow> string" where
  "assignment_line k =
     (let pre = takeWhile (\<lambda>c. c \<noteq> CHR ''='') k;
          post = dropWhile (\<lambda>c. c \<noteq> CHR ''='') k
      in rev (takeWhile (\<lambda>c. c \<noteq> newline) (rev pre)) @ rest_of_line post)"

definition assignment_groups :: "string \<Rightarrow> string \<times> string" where
  "assignment_groups k =
     (let line = assignment_line k
      in (rev (tl (dropWhile (\<lambda>c. c \<noteq> CHR ''='') (rev line))),
          rev (takeWhile (\<lambda>c. c \<noteq> CHR ''='') (rev line))))"

definition get_assignment_var :: "string \<Rightarrow> bool \<times> string \<times> string" where
  "get_assignment_var k =
     (if CHR ''='' \<notin> set k then (False, [], k)
      else (True, fst (assignment_groups k), snd (assignment_groups k)))"

subsection \<open>Construction of a step\<close>

text \<open>
  \<open>Command.__init__\<close>. The loop over the items of the entry runs its body once, on
  the first item, and breaks. For an entry with no item the body never runs and
  the object has none of the attributes \<open>orig_key\<close>, \<open>assignment\<close>,
  \<open>assignment_var\<close>, \<open>key\<close>, \<open>value\<close>: the result is \<open>None\<close>. \<open>next(iter(value))\<close>
  raises \<open>StopIteration\<close> on a mapping with no key.
\<close>

definition init :: "(string \<times> yaml_value) list \<Rightarrow> int \<Rightarrow> (string \<rightharpoonup> string) \<Rightarrow> nat
    \<Rightarrow> string list \<Rightarrow> error + command option" where
  "init entry i sys variables imps =
     (case entry of
        [] \<Rightarrow> Inr None
      | (k, v) # _ \<Rightarrow>
          (case get_assignment_var k of
             (a, av, nk) \<Rightarrow>
               (case v of
                  Dict d \<Rightarrow>
                    (case d of
                       [] \<Rightarrow> Inl StopIteration
                     | (k', _) # _ \<Rightarrow>
                         Inr (Some \<lparr>pipeline_cmd = entry, index = i, systems = sys,
                           vars = variables, imports_list = imps, orig_key = k,
                           assignment = a, assignment_var = av, key = nk,
                           value_tmpl = Str (''{'' @ k' @ ''}'')\<rparr>))
                | _ \<Rightarrow>
                    Inr (Some \<lparr>pipeline_cmd = entry, index = i, systems = sys,
                      vars = variables, imports_list = imps, orig_key = k,
                      assignment = a, assignment_var = av, key = nk,
                      value_tmpl = v\<rparr>))))"

subsection \<open>Classification and host lookup\<close>

text \<open>\<open>Command.get_type\<close>: the kind is returned as the string the source returns.\<close>

definition get_type :: "command \<Rightarrow> error + string" where
  "get_type self =
     (if key self = ''local'' then Inr ''local''
      else if key self = ''manual'' then Inr ''manual''
      else if key self = ''python'' then Inr ''python''
      else if after_first ''remote@'' (key self) \<noteq> None then Inr ''remote''
      else Inl (UnknownCommandException (''Command type '' @ key self @ '' is not known.'')))"

text \<open>
  \<open>Command.get_system\<close>. \<open>self.systems[...]\<close> raises \<open>KeyError\<close> for a name that
  is no key of the mapping. The search cannot fail on a key of kind remote; the
  branch stands for the attribute access on \<open>None\<close> the source would make.
\<close>

definition get_system :: "command \<Rightarrow> error + string" where
  "get_system self =
     (case get_type self of
        Inl e \<Rightarrow> Inl e
      | Inr t \<Rightarrow>
          if t = ''remote'' then
            (case after_first ''remote@'' (key self) of
               None \<Rightarrow> Inl AttributeError
             | Some rest \<Rightarrow>
                 (case systems self (rest_of_line rest) of
                    None \<Rightarrow> Inl (KeyError (rest_of_line rest))
                  | Some host \<Rightarrow> Inr host))
          else Inr ''localhost'')"

subsection \<open>Library functions on strings\<close>

text \<open>\<open>str(n)\<close> for an integer: its decimal digits, after a minus sign when negative.\<close>

definition digit_char :: "nat \<Rightarrow> char" where
  "digit_char n = ''0123456789'' ! (n mod 10)"

function str_nat :: "nat \<Rightarrow> string" where
  "str_nat n = (if n < 10 then [digit_char n] else str_nat (n div 10) @ [digit_char n])"
  by pat_completeness auto
termination
  by (relation "measure (\<lambda>n. n)") auto

definition str_int :: "int \<Rightarrow> string" where
  "str_int i = (if i < 0 then CHR ''-'' # str_nat (nat (- i)) else str_nat (nat i))"

text \<open>\<open>sep.join(xs)\<close>.\<close>

fun join :: "string \<Rightarrow> string list \<Rightarrow> string" where
  "join sep [] = []"
| "join sep [x] = x"
| "join sep (x # y # ys) = x @ sep @ join sep (y # ys)"

text \<open>
  \<open>shlex.quote\<close>: the empty string becomes two single quotes, a string of safe
  characters (\<open>[A-Za-z0-9_@%+=:,./-]\<close>) is left as it is, and any other string is
  put in single quotes, each single quote in it written as \<open>'"'"'\<close>.
\<close>

definition sq :: char where
  "sq = CHR 0x27"

definition dq :: char where
  "dq = CHR 0x22"

definition safe_char :: "char \<Rightarrow> bool" where
  "safe_char c =
     (c \<in> set ''abcdefghijklmnopqrstuvwxyzABCDEFGHIJKLMNOPQRSTUVWXYZ0123456789_@%+=:,./-'')"

definition quote :: "string \<Rightarrow> string" where
  "quote s =
     (if s = [] then [sq, sq]
      else if list_all safe_char s then s
      else [sq] @ concat (map (\<lambda>c. if c = sq then [sq, dq, sq, dq, sq] else [c]) s) @ [sq])"

text \<open>
  \<open>str.split()\<close> with no argument: the words between runs of white space. On the
  characters below 256 Python's white space is the set written out here.
\<close>

definition is_space :: "char \<Rightarrow> bool" where
  "is_space c =
     (c \<in> {CHR 0x09, CHR 0x0A, CHR 0x0B, CHR 0x0C, CHR 0x0D, CHR 0x1C, CHR 0x1D,
            CHR 0x1E, CHR 0x1F, CHR 0x20, CHR 0x85, CHR 0xA0})"

fun split_from :: "string \<Rightarrow> string \<Rightarrow> string list" where
  "split_from word [] = (if word = [] then [] else [word])"
| "split_from word (c # cs) =
     (if is_space c then (if word = [] then split_from [] cs else word # split_from [] cs)
      else split_from (word @ [c]) cs)"

definition str_split :: "string \<Rightarrow> string list" where
  "str_split s = split_from [] s"

subsection \<open>str.format with keyword arguments only\<close>

text \<open>
  The replacement field whose name has been read. No positional argument is
  passed, so an empty name (automatic numbering) and a name made of decimal digits
  (an index, at most \<open>2^63 - 1\<close>; above that the digits are refused) raise; any
  other name is looked up among the keyword arguments.
\<close>

definition is_digit :: "char \<Rightarrow> bool" where
  "is_digit c = (c \<in> set ''0123456789'')"

definition digits_value :: "string \<Rightarrow> nat" where
  "digits_value s = fold (\<lambda>c n. 10 * n + (of_char c - 48)) s 0"

definition render_field :: "(string \<rightharpoonup> string) \<Rightarrow> string \<Rightarrow> error + string" where
  "render_field m name =
     (if name = [] then Inl IndexError
      else if list_all is_digit name then
        (if digits_value name \<le> 9223372036854775807 then Inl IndexError else Inl ValueError)
      else (case m name of None \<Rightarrow> Inl (KeyError name) | Some v \<Rightarrow> Inr v))"

text \<open>
  The scanner of the format string, from left to right. The second argument is
  \<open>None\<close> in literal text and \<open>Some name\<close> inside a replacement field, \<open>name\<close> being
  what has been read of the field so far. In literal text a doubled brace is one
  brace, a single \<open>}\<close> and a \<open>{\<close> at the very end are refused. A field ends at its
  \<open>}\<close>; it is rendered before the text after it is read, so the first error from
  the left is the one raised (\<open>prepend\<close> puts the text rendered so far before
  the rest, and keeps an error as it is). A field that holds \<open>!\<close>, \<open>:\<close>, \<open>.\<close> or \<open>[\<close> is outside
  this embedding.
\<close>

fun prepend :: "string \<Rightarrow> error + string \<Rightarrow> error + string" where
  "prepend x (Inl e) = Inl e"
| "prepend x (Inr y) = Inr (x @ y)"

fun format_from :: "(string \<rightharpoonup> string) \<Rightarrow> string option \<Rightarrow> string \<Rightarrow> error + string" where
  "format_from m None [] = Inr []"
| "format_from m (Some name) [] = Inl ValueError"
| "format_from m None (c # cs) =
     (if c = CHR ''{'' then
        (case cs of
           [] \<Rightarrow> Inl ValueError
         | d # ds \<Rightarrow>
             if d = CHR ''{'' then prepend ''{'' (format_from m None ds)
             else format_from m (Some []) cs)
      else if c = CHR ''}'' then
        (case cs of
           [] \<Rightarrow> Inl ValueError
         | d # ds \<Rightarrow>
             if d = CHR ''}'' then prepend ''}'' (format_from m None ds)
             else Inl ValueError)
      else prepend [c] (format_from m None cs))"
| "format_from m (Some name) (c # cs) =
     (if c = CHR ''}'' then
        (case render_field m name of
           Inl e \<Rightarrow> Inl e
         | Inr v \<Rightarrow> prepend v (format_from m None cs))
      else if c = CHR ''{'' then Inl ValueError
      else if c = CHR ''!'' \<or> c = CHR '':'' \<or> c = CHR ''.'' \<or> c = CHR ''['' then Inl NotModelled
      else format_from m (Some (name @ [c])) cs)"

definition str_format :: "string \<Rightarrow> (string \<rightharpoonup> string) \<Rightarrow> error + string" where
  "str_format s m = format_from m None s"

text \<open>
  A keyword name: a field name with none of the characters that end a field or
  start another construct, not empty and not a number.
\<close>

definition name_char :: "char \<Rightarrow> bool" where
  "name_char c = (c \<notin> set ''{}!:.['')"

definition keyword_name :: "string \<Rightarrow> bool" where
  "keyword_name n = (n \<noteq> [] \<and> list_all name_char n \<and> \<not> list_all is_digit n)"

subsection \<open>The environment of a run\<close>

text \<open>
  What a run does to the outside is recorded as a trace of events: a line handed
  to the logger (level and text), a prompt shown by \<open>input\<close>, the shell command
  of a step, a remote process query, a remote kill, the removal of the staging
  directory, and a text given to \<open>exec\<close>.
\<close>

datatype event =
    Log string string
  | Prompt string
  | Run string
  | PidQuery string
  | Kill string
  | Cleanup string
  | Exec string

text \<open>How a child process started by \<open>subprocess.run\<close> ends, and how \<open>exec\<close> ends.\<close>

datatype proc_result = Completed int string | Interrupted

datatype exec_result =
    ExecReturned "string \<rightharpoonup> string" string
  | ExecInterrupted
  | ExecRaised string

text \<open>
  The state threaded through the methods. \<open>dicts\<close> is the store of dict objects
  and \<open>next_ref\<close> the first reference not yet allocated. \<open>CONSTANTS\<close> is the mapping
  imported from automatix.constants, a module that is not among the sources; it
  is taken as given, as the list of its items. \<open>stdin\<close> holds the lines the
  operator will still type; \<open>input\<close> raises \<open>EOFError\<close> when there is none. The
  last four fields say how the outside answers: the result of the n-th step
  command, exit status and output of the n-th process query, the exit status of
  the n-th removal of the staging directory, and the result of the n-th \<open>exec\<close>
  (the contents of the dict of variables afterwards, and the text of the value
  of the expression). An interrupt is modelled where the source catches it.
\<close>

record world =
  dicts :: "nat \<Rightarrow> string \<rightharpoonup> string"
  next_ref :: nat
  CONSTANTS :: "(string \<times> string) list"
  stdin :: "string list"
  trace :: "event list"
  run_results :: "nat \<Rightarrow> proc_result"
  pid_results :: "nat \<Rightarrow> int \<times> string"
  cleanup_results :: "nat \<Rightarrow> int"
  exec_results :: "nat \<Rightarrow> exec_result"

definition emit :: "event \<Rightarrow> world \<Rightarrow> world" where
  "emit ev w = w\<lparr>trace := trace w @ [ev]\<rparr>"

definition LOG :: "string \<Rightarrow> string \<Rightarrow> world \<Rightarrow> world" where
  "LOG level msg w = emit (Log level msg) w"

fun is_run :: "event \<Rightarrow> bool" where
  "is_run (Run c) = True"
| "is_run ev = False"

fun is_pid_query :: "event \<Rightarrow> bool" where
  "is_pid_query (PidQuery c) = True"
| "is_pid_query ev = False"

fun is_cleanup :: "event \<Rightarrow> bool" where
  "is_cleanup (Cleanup c) = True"
| "is_cleanup ev = False"

fun is_exec :: "event \<Rightarrow> bool" where
  "is_exec (Exec c) = True"
| "is_exec ev = False"

fun is_prompt :: "event \<Rightarrow> bool" where
  "is_prompt (Prompt c) = True"
| "is_prompt ev = False"

definition count_events :: "(event \<Rightarrow> bool) \<Rightarrow> event list \<Rightarrow> nat" where
  "count_events P evs = length (filter P evs)"

text \<open>\<open>input(prompt)\<close>.\<close>

definition input_line :: "string \<Rightarrow> world \<Rightarrow> (error + string) \<times> world" where
  "input_line prompt w =
     (case stdin w of
        [] \<Rightarrow> (Inl EOFError, emit (Prompt prompt) w)
      | a # rest \<Rightarrow> (Inr a, emit (Prompt prompt) (w\<lparr>stdin := rest\<rparr>)))"

text \<open>\<open>d.copy()\<close> allocates a new dict with the items of \<open>d\<close>; \<open>d[k] = v\<close> writes in place.\<close>

definition dict_copy :: "nat \<Rightarrow> world \<Rightarrow> nat \<times> world" where
  "dict_copy r w =
     (next_ref w, w\<lparr>dicts := (dicts w)(next_ref w := dicts w r), next_ref := Suc (next_ref w)\<rparr>)"

definition dict_setitem :: "nat \<Rightarrow> string \<Rightarrow> string \<Rightarrow> world \<Rightarrow> world" where
  "dict_setitem r k v w = w\<lparr>dicts := (dicts w)(r := (dicts w r)(k \<mapsto> v))\<rparr>"

subsection \<open>Resolution of the template\<close>

text \<open>
  The first statements of \<open>Command.get_resolved_value\<close>: the copy of the dict of
  variables and the loop over the items of \<open>CONSTANTS\<close>, which writes each
  constant into the copy under its name prefixed with \<open>const_\<close> (\<open>set_const\<close> is
  the body of the loop). The result is the reference of the local dict
  \<open>variables\<close>.
\<close>

definition const_name :: "string \<Rightarrow> string" where
  "const_name k = ''const_'' @ k"

definition set_const :: "nat \<Rightarrow> string \<times> string \<Rightarrow> world \<Rightarrow> world" where
  "set_const variables item w = dict_setitem variables (const_name (fst item)) (snd item) w"

definition merged_variables :: "command \<Rightarrow> world \<Rightarrow> nat \<times> world" where
  "merged_variables self w =
     (case dict_copy (vars self) w of
        (variables, w1) \<Rightarrow> (variables, fold (set_const variables) (CONSTANTS w1) w1))"

text \<open>The items of the local dict \<open>variables\<close> when the loop has ended.\<close>

definition merged_mapping :: "command \<Rightarrow> world \<Rightarrow> string \<rightharpoonup> string" where
  "merged_mapping self w = (case merged_variables self w of (variables, w1) \<Rightarrow> dicts w1 variables)"

text \<open>What the loop over the constants does to the items of the dict it writes.\<close>

definition set_constant :: "string \<times> string \<Rightarrow> (string \<rightharpoonup> string) \<Rightarrow> (string \<rightharpoonup> string)" where
  "set_constant kv m = m(const_name (fst kv) \<mapsto> snd kv)"

definition with_constants :: "(string \<times> string) list \<Rightarrow> (string \<rightharpoonup> string) \<Rightarrow> (string \<rightharpoonup> string)" where
  "with_constants cs m = fold set_constant cs m"

text \<open>
  \<open>Command.get_resolved_value\<close>: \<open>format\<close> is called on the attribute \<open>value\<close>,
  which only a text has, with the items of the local dict as keyword arguments.
\<close>

definition get_resolved_value :: "command \<Rightarrow> world \<Rightarrow> (error + string) \<times> world" where
  "get_resolved_value self w =
     (case merged_variables self w of
        (variables, w1) \<Rightarrow>
          (case value_tmpl self of
             Str s \<Rightarrow> (str_format s (dicts w1 variables), w1)
           | _ \<Rightarrow> (Inl AttributeError, w1)))"

subsection \<open>Building and running commands\<close>

definition IMPORT_PATH :: string where
  "IMPORT_PATH = ''.''"

definition SSH_CMD :: string where
  "SSH_CMD = ''ssh {hostname} sudo ''"

definition REMOTE_TMP_DIR :: string where
  "REMOTE_TMP_DIR = ''automatix_tmp''"

text \<open>\<open>Command._build_command\<close>.\<close>

definition build_command :: "command \<Rightarrow> string \<Rightarrow> world \<Rightarrow> (error + string) \<times> world" where
  "build_command self path w =
     (if imports_list self = [] then get_resolved_value self w
      else
        (case get_resolved_value self w of
           (Inl e, w1) \<Rightarrow> (Inl e, w1)
         | (Inr v, w1) \<Rightarrow>
             (Inr (''. '' @ path @ ''/'' @ join (''; . '' @ path @ ''/'') (imports_list self)
                   @ ''; '' @ v), w1)))"

text \<open>
  \<open>subprocess.run\<close> on the command of a step: the answer of the outside to the
  n-th such call, n being the number of those made before.
\<close>

definition subprocess_run :: "string \<Rightarrow> world \<Rightarrow> proc_result \<times> world" where
  "subprocess_run cmd w = (run_results w (count_events is_run (trace w)), emit (Run cmd) w)"

text \<open>
  \<open>Command._run_local_command\<close>. An interrupt of the child leaves the method as
  \<open>KeyboardInterrupt\<close>, before anything is captured.
\<close>

definition run_local_command :: "command \<Rightarrow> string \<Rightarrow> world \<Rightarrow> (error + int) \<times> world" where
  "run_local_command self cmd w =
     (case subprocess_run cmd (LOG ''debug'' (''Executing: '' @ cmd) w) of
        (Interrupted, w1) \<Rightarrow> (Inl KeyboardInterrupt, w1)
      | (Completed returncode output, w1) \<Rightarrow>
          if assignment self then
            (Inr returncode,
             LOG ''info'' (''Variable '' @ assignment_var self @ '' = '' @ output)
               (dict_setitem (vars self) (assignment_var self) output w1))
          else (Inr returncode, w1))"

definition interrupt_msg :: string where
  "interrupt_msg = ''Abort command by user key stroke. Exit code is set to 130.''"

text \<open>\<open>Command._local_action\<close>: the command is built outside the \<open>try\<close>.\<close>

definition local_action :: "command \<Rightarrow> world \<Rightarrow> (error + int) \<times> world" where
  "local_action self w =
     (case build_command self IMPORT_PATH w of
        (Inl e, w1) \<Rightarrow> (Inl e, w1)
      | (Inr cmd, w1) \<Rightarrow>
          (case run_local_command self cmd w1 of
             (Inl KeyboardInterrupt, w2) \<Rightarrow> (Inr 130, LOG ''info'' interrupt_msg w2)
           | (Inl e, w2) \<Rightarrow> (Inl e, w2)
           | (Inr returncode, w2) \<Rightarrow> (Inr returncode, w2)))"

text \<open>
  \<open>Command._python_action\<close>. The text is resolved outside the \<open>try\<close>; inside it
  every exception but the interrupt yields exit code 1.
\<close>

definition exec_py :: "string \<Rightarrow> world \<Rightarrow> exec_result \<times> world" where
  "exec_py code w = (exec_results w (count_events is_exec (trace w)), emit (Exec code) w)"

definition python_action :: "command \<Rightarrow> world \<Rightarrow> (error + int) \<times> world" where
  "python_action self w =
     (case get_resolved_value self w of
        (Inl e, w1) \<Rightarrow> (Inl e, w1)
      | (Inr cmd, w1) \<Rightarrow>
          (let w2 = LOG ''debug'' (''Run python command: '' @ cmd) w1 in
           if assignment_var self \<noteq> [] then
             (case exec_py (''self.vars[self.assignment_var] = '' @ cmd) w2 of
                (ExecReturned d v, w3) \<Rightarrow>
                  (Inr 0,
                   LOG ''info'' (''Variable '' @ assignment_var self @ '' = '' @ v)
                     (w3\<lparr>dicts := (dicts w3)(vars self := d(assignment_var self \<mapsto> v))\<rparr>))
              | (ExecInterrupted, w3) \<Rightarrow> (Inr 130, LOG ''info'' interrupt_msg w3)
              | (ExecRaised msg, w3) \<Rightarrow> (Inr 1, LOG ''error'' msg w3))
           else
             (case exec_py cmd w2 of
                (ExecReturned d v, w3) \<Rightarrow> (Inr 0, w3\<lparr>dicts := (dicts w3)(vars self := d)\<rparr>)
              | (ExecInterrupted, w3) \<Rightarrow> (Inr 130, LOG ''info'' interrupt_msg w3)
              | (ExecRaised msg, w3) \<Rightarrow> (Inr 1, LOG ''error'' msg w3))))"

subsection \<open>The remote executor\<close>

text \<open>
  \<open>get_remote_pids\<close>. \<open>ps_query\<close> is the command line built by its first two
  statements; \<open>check_output\<close> raises on an exit status other than 0.
\<close>

definition ps_query :: "string \<Rightarrow> string \<Rightarrow> string" where
  "ps_query hostname cmd =
     (let ps_cmd = ''ps axu | grep '' @ quote cmd @ '' | grep -v '' @ [sq] @ ''grep'' @ [sq]
                   @ '' | awk '' @ [sq] @ ''{print $2}'' @ [sq]
      in ''ssh '' @ hostname @ '' '' @ quote ps_cmd @ '' 2>&1'')"

definition get_remote_pids :: "string \<Rightarrow> string \<Rightarrow> world \<Rightarrow> (error + string list) \<times> world" where
  "get_remote_pids hostname cmd w =
     (case pid_results w (count_events is_pid_query (trace w)) of
        (status, output) \<Rightarrow>
          if status \<noteq> 0 then
            (Inl (CalledProcessError status), emit (PidQuery (ps_query hostname cmd)) w)
          else (Inr (str_split output), emit (PidQuery (ps_query hostname cmd)) w))"

text \<open>The loop over the PIDs that sends the chosen signal to each.\<close>

definition kill_all :: "string \<Rightarrow> string \<Rightarrow> string \<Rightarrow> string list \<Rightarrow> world \<Rightarrow> world" where
  "kill_all ssh_cmd hostname signal pids w =
     fold (\<lambda>pid w'. emit (Kill (ssh_cmd @ '' kill -'' @ signal @ '' '' @ pid))
                       (LOG ''info'' (''Kill '' @ pid @ '' on '' @ hostname) w')) pids w"

definition signal_prompt :: string where
  "signal_prompt = ''What should I do? (i: send SIGINT (default), t: send SIGTERM, k: send SIGKILL, p: do nothing and proceed) ''"

definition still_running_msg :: "string list \<Rightarrow> string" where
  "still_running_msg ps_pids =
     ''Remote command seems still to be running! Found PIDs: '' @ join '','' ps_pids"

lemma stdin_emit [simp]: "stdin (emit ev w) = stdin w"
  by (simp add: emit_def)

lemma stdin_LOG [simp]: "stdin (LOG l m w) = stdin w"
  by (simp add: LOG_def)

lemma stdin_dict_setitem [simp]: "stdin (dict_setitem r k v w) = stdin w"
  by (simp add: dict_setitem_def)

lemma stdin_fold:
  assumes "\<And>x w. stdin (f x w) = stdin w"
  shows "stdin (fold f xs w) = stdin w"
  using assms by (induction xs arbitrary: w) auto

lemma stdin_merged_variables [simp]: "stdin (snd (merged_variables self w)) = stdin w"
proof -
  have "stdin (fold (set_const r) cs w1) = stdin w1" for r cs w1
    by (rule stdin_fold) (simp add: set_const_def)
  then show ?thesis
    by (simp add: merged_variables_def dict_copy_def)
qed

lemma stdin_get_resolved_value [simp]: "stdin (snd (get_resolved_value self w)) = stdin w"
  by (simp add: get_resolved_value_def case_prod_beta split: yaml_value.splits)

lemma stdin_kill_all [simp]: "stdin (kill_all s h sig pids w) = stdin w"
  unfolding kill_all_def by (rule stdin_fold) simp

lemma stdin_get_remote_pids [simp]: "stdin (snd (get_remote_pids h c w)) = stdin w"
  by (simp add: get_remote_pids_def Let_def case_prod_beta)

lemma stdin_input_line: "input_line p w = (Inr a, w') \<Longrightarrow> stdin w = a # stdin w'"
  by (auto simp: input_line_def split: list.splits)

lemma stdin_input_line_le: "length (stdin (snd (input_line p w))) \<le> length (stdin w)"
  by (auto simp: input_line_def split: list.splits)

function pid_loop :: "command \<Rightarrow> string \<Rightarrow> string \<Rightarrow> string list \<Rightarrow> world \<Rightarrow> (error + unit) \<times> world" where
  "pid_loop self hostname ssh_cmd ps_pids w =
     (if ps_pids = [] then (Inr (), w)
      else
        (case input_line signal_prompt (LOG ''notice'' (still_running_msg ps_pids) w) of
           (Inl e, w1) \<Rightarrow> (Inl e, w1)
         | (Inr answer, w1) \<Rightarrow>
             if answer = ''p'' then (Inr (), w1)
             else
               (let signal = (if answer = ''t'' then ''TERM''
                              else if answer = ''k'' then ''KILL'' else ''INT'')
                in (case get_resolved_value self (kill_all ssh_cmd hostname signal ps_pids w1) of
                      (Inl e, w2) \<Rightarrow> (Inl e, w2)
                    | (Inr v, w2) \<Rightarrow>
                        (case get_remote_pids hostname v w2 of
                           (Inl e, w3) \<Rightarrow> (Inl e, w3)
                         | (Inr pids, w3) \<Rightarrow> pid_loop self hostname ssh_cmd pids w3)))))"
  by pat_completeness auto
termination
proof (relation "measure (\<lambda>(self, hostname, ssh_cmd, ps_pids, w). length (stdin w))", goal_cases)
  case 1
  show ?case by simp
next
  case (2 self hostname ssh_cmd ps_pids w p1 w1 answer signal p2 w2 v p3 w3 pids)
  have "stdin w3 = stdin w2"
    using stdin_get_remote_pids [of hostname v w2] 2(8) [symmetric] by simp
  moreover have "stdin w2 = stdin w1"
    using stdin_get_resolved_value [of self "kill_all ssh_cmd hostname signal ps_pids w1"]
      2(6) [symmetric] by simp
  moreover have "stdin w = answer # stdin w1"
    using stdin_input_line [of signal_prompt "LOG ''notice'' (still_running_msg ps_pids) w" answer w1]
      2(2,3) by simp
  ultimately show ?case by simp
qed

declare pid_loop.simps [simp del]

text \<open>
  The handler of \<open>KeyboardInterrupt\<close> in \<open>Command._remote_action\<close>: the exit code
  becomes 130 and the loop runs while the query finds PIDs.
\<close>

definition interrupt_handler :: "command \<Rightarrow> string \<Rightarrow> string \<Rightarrow> world \<Rightarrow> (error + int) \<times> world" where
  "interrupt_handler self hostname ssh_cmd w =
     (case get_resolved_value self (LOG ''info'' interrupt_msg w) of
        (Inl e, w1) \<Rightarrow> (Inl e, w1)
      | (Inr v, w1) \<Rightarrow>
          (case get_remote_pids hostname v w1 of
             (Inl e, w2) \<Rightarrow> (Inl e, w2)
           | (Inr ps_pids, w2) \<Rightarrow>
               (case pid_loop self hostname ssh_cmd ps_pids w2 of
                  (Inl e, w3) \<Rightarrow> (Inl e, w3)
                | (Inr u, w3) \<Rightarrow>
                    (Inr 130, LOG ''info'' (''Keystroke interrupt handled.'' @ [newline]) w3))))"

text \<open>The removal of the staging directory, the last statement before \<open>return\<close>.\<close>

definition cleanup_staging :: "string \<Rightarrow> world \<Rightarrow> world" where
  "cleanup_staging ssh_cmd w =
     (let cleanup_cmd = ssh_cmd @ '' rm -r '' @ REMOTE_TMP_DIR;
          w1 = LOG ''debug'' (''Executing: '' @ cleanup_cmd) w;
          returncode = cleanup_results w1 (count_events is_cleanup (trace w1));
          w2 = emit (Cleanup cleanup_cmd) w1
      in if returncode \<noteq> 0 then
           LOG ''warning'' (''Failed to remove '' @ REMOTE_TMP_DIR @ '', exitcode: ''
                            @ str_int returncode) w2
         else w2)"

text \<open>
  The command line of \<open>Command._remote_action\<close>: with imports the files are piped
  through \<open>tar\<close> into the staging directory and the command is built for that
  directory.
\<close>

definition remote_command :: "command \<Rightarrow> string \<Rightarrow> world \<Rightarrow> (error + string) \<times> world" where
  "remote_command self ssh_cmd w =
     (case get_resolved_value self w of
        (Inl e, w1) \<Rightarrow> (Inl e, w1)
      | (Inr remote_cmd, w1) \<Rightarrow>
          if imports_list self \<noteq> [] then
            (case build_command self REMOTE_TMP_DIR w1 of
               (Inl e, w2) \<Rightarrow> (Inl e, w2)
             | (Inr built, w2) \<Rightarrow>
                 (Inr ((''tar -C '' @ IMPORT_PATH @ '' -cf - '' @ join '' '' (imports_list self)
                        @ '' | '')
                       @ ssh_cmd
                       @ quote (''bash -c '' @ quote (''mkdir '' @ REMOTE_TMP_DIR @ '';''
                           @ '' tar -C '' @ REMOTE_TMP_DIR @ '' -xf -;'' @ '' '' @ built))), w2))
          else (Inr (ssh_cmd @ quote (''bash -c '' @ quote remote_cmd)), w1))"

text \<open>\<open>Command._remote_action\<close>.\<close>

definition remote_action :: "command \<Rightarrow> world \<Rightarrow> (error + int) \<times> world" where
  "remote_action self w =
     (case get_system self of
        Inl e \<Rightarrow> (Inl e, w)
      | Inr hostname \<Rightarrow>
          (case str_format SSH_CMD [''hostname'' \<mapsto> hostname] of
             Inl e \<Rightarrow> (Inl e, w)
           | Inr ssh_cmd \<Rightarrow>
               (case remote_command self ssh_cmd w of
                  (Inl e, w1) \<Rightarrow> (Inl e, w1)
                | (Inr cmd, w1) \<Rightarrow>
                    (case (case run_local_command self cmd w1 of
                             (Inl KeyboardInterrupt, w2) \<Rightarrow>
                               interrupt_handler self hostname ssh_cmd w2
                           | (Inl e, w2) \<Rightarrow> (Inl e, w2)
                           | (Inr exitcode, w2) \<Rightarrow> (Inr exitcode, w2)) of
                       (Inl e, w3) \<Rightarrow> (Inl e, w3)
                     | (Inr exitcode, w3) \<Rightarrow>
                         (Inr exitcode,
                          if imports_list self \<noteq> [] then cleanup_staging ssh_cmd w3 else w3)))))"

subsection \<open>The controller\<close>

definition proceed_prompt :: string where
  "proceed_prompt = ''Proceed? (p: proceed (default), s: skip, a: abort)''"

definition failure_prompt :: string where
  "failure_prompt = ''What should I do? (p: proceed (default), r: retry, a: abort)''"

text \<open>
  The manual gate of \<open>Command.execute\<close>: \<open>Inr False\<close> is the \<open>return\<close> on the
  answer \<open>s\<close>, \<open>Inr True\<close> goes on to the dispatch.
\<close>

definition manual_gate :: "command \<Rightarrow> bool \<Rightarrow> world \<Rightarrow> (error + bool) \<times> world" where
  "manual_gate self interactive w =
     (case get_type self of
        Inl e \<Rightarrow> (Inl e, w)
      | Inr t \<Rightarrow>
          if t = ''manual'' \<or> interactive then
            (case input_line proceed_prompt w of
               (Inl e, w1) \<Rightarrow> (Inl e, w1)
             | (Inr answer, w1) \<Rightarrow>
                 if answer = ''s'' then (Inr False, w1)
                 else if answer = ''a'' then (Inl (AbortException (str_int 1)), w1)
                 else (Inr True, w1))
          else (Inr True, w))"

text \<open>
  The three dispatch statements of \<open>Command.execute\<close>, each with its own call of
  \<open>get_type\<close>. For the kind manual none of them runs an action and \<open>return_code\<close>
  stays 0.
\<close>

definition dispatch :: "command \<Rightarrow> world \<Rightarrow> (error + int) \<times> world" where
  "dispatch self w =
     (case get_type self of
        Inl e \<Rightarrow> (Inl e, w)
      | Inr t1 \<Rightarrow>
          (case (if t1 = ''local'' then local_action self w else (Inr 0, w)) of
             (Inl e, w1) \<Rightarrow> (Inl e, w1)
           | (Inr c1, w1) \<Rightarrow>
               (case get_type self of
                  Inl e \<Rightarrow> (Inl e, w1)
                | Inr t2 \<Rightarrow>
                    (case (if t2 = ''python'' then python_action self w1 else (Inr c1, w1)) of
                       (Inl e, w2) \<Rightarrow> (Inl e, w2)
                     | (Inr c2, w2) \<Rightarrow>
                         (case get_type self of
                            Inl e \<Rightarrow> (Inl e, w2)
                          | Inr t3 \<Rightarrow>
                              if t3 = ''remote'' then remote_action self w2
                              else (Inr c2, w2))))))"

definition step_msg :: "command \<Rightarrow> string \<Rightarrow> string" where
  "step_msg self v =
     [newline] @ ''('' @ str_int (index self) @ '') ['' @ orig_key self @ '']: '' @ v"

definition failed_msg :: "command \<Rightarrow> int \<Rightarrow> string" where
  "failed_msg self return_code =
     ''Command ('' @ str_int (index self) @ '') failed with return code ''
     @ str_int return_code @ ''.''"

lemma dispatch_kind:
  "get_type self = Inr t \<Longrightarrow>
   dispatch self w =
     (if t = ''local'' then local_action self w
      else if t = ''python'' then python_action self w
      else if t = ''remote'' then remote_action self w
      else (Inr 0, w))"
  by (auto simp: dispatch_def split: prod.splits sum.splits)

lemma stdin_build_command [simp]: "stdin (snd (build_command self path w)) = stdin w"
  by (simp add: build_command_def case_prod_beta split: sum.splits)

lemma stdin_run_local_command [simp]: "stdin (snd (run_local_command self cmd w)) = stdin w"
  by (simp add: run_local_command_def subprocess_run_def split: proc_result.splits)

lemma stdin_local_action [simp]: "stdin (snd (local_action self w)) = stdin w"
  by (simp add: local_action_def case_prod_beta split: sum.splits error.splits)

lemma stdin_python_action [simp]: "stdin (snd (python_action self w)) = stdin w"
  by (simp add: python_action_def exec_py_def Let_def case_prod_beta
      split: sum.splits exec_result.splits)

lemma stdin_pid_loop:
  "pid_loop self hostname ssh_cmd ps_pids w = (r, w') \<Longrightarrow> length (stdin w') \<le> length (stdin w)"
proof (induction self hostname ssh_cmd ps_pids w arbitrary: r w' rule: pid_loop.induct)
  case (1 self hostname ssh_cmd ps_pids w)
  show ?case
  proof (cases "ps_pids = []")
    case True
    then show ?thesis using "1.prems"
      by (simp add: pid_loop.simps [of self hostname ssh_cmd "[]" w])
  next
    case False
    obtain p1 w1 where i: "input_line signal_prompt (LOG ''notice'' (still_running_msg ps_pids) w) = (p1, w1)"
      by (cases "input_line signal_prompt (LOG ''notice'' (still_running_msg ps_pids) w)")
    have le1: "length (stdin w1) \<le> length (stdin w)"
      using stdin_input_line_le [of signal_prompt "LOG ''notice'' (still_running_msg ps_pids) w"] i
      by simp
    show ?thesis
    proof (cases p1)
      case (Inl e)
      then show ?thesis using "1.prems" False i le1
        by (simp add: pid_loop.simps [of self hostname ssh_cmd ps_pids w])
    next
      case (Inr answer)
      show ?thesis
      proof (cases "answer = ''p''")
        case True
        then show ?thesis using "1.prems" False i Inr le1
          by (simp add: pid_loop.simps [of self hostname ssh_cmd ps_pids w])
      next
        case np: False
        define signal where "signal = (if answer = ''t'' then ''TERM''
                              else if answer = ''k'' then ''KILL'' else ''INT'')"
        obtain p2 w2 where g: "get_resolved_value self (kill_all ssh_cmd hostname signal ps_pids w1) = (p2, w2)"
          by (cases "get_resolved_value self (kill_all ssh_cmd hostname signal ps_pids w1)")
        have s2: "stdin w2 = stdin w1"
          using stdin_get_resolved_value [of self "kill_all ssh_cmd hostname signal ps_pids w1"] g
          by simp
        show ?thesis
        proof (cases p2)
          case (Inl e)
          then show ?thesis using "1.prems" False i Inr np g s2 le1
            by (simp add: signal_def pid_loop.simps [of self hostname ssh_cmd ps_pids w])
        next
          case v: (Inr v)
          obtain p3 w3 where q: "get_remote_pids hostname v w2 = (p3, w3)"
            by (cases "get_remote_pids hostname v w2")
          have s3: "stdin w3 = stdin w2"
            using stdin_get_remote_pids [of hostname v w2] q by simp
          show ?thesis
          proof (cases p3)
            case (Inl e)
            then show ?thesis using "1.prems" False i Inr np g v q s2 s3 le1
              by (simp add: signal_def pid_loop.simps [of self hostname ssh_cmd ps_pids w])
          next
            case pids: (Inr pids)
            have "pid_loop self hostname ssh_cmd pids w3 = (r, w')"
              using "1.prems" False i Inr np g v q pids
              by (simp add: signal_def pid_loop.simps [of self hostname ssh_cmd ps_pids w])
            from "1.IH" [OF False i [symmetric] Inr np signal_def g [symmetric] v q [symmetric] pids this]
            show ?thesis using s2 s3 le1 by simp
          qed
        qed
      qed
    qed
  qed
qed

lemma stdin_pid_loop_snd:
  "length (stdin (snd (pid_loop self hostname ssh_cmd ps_pids w))) \<le> length (stdin w)"
  using stdin_pid_loop [of self hostname ssh_cmd ps_pids w] by (metis prod.collapse)

lemma stdin_interrupt_handler:
  "length (stdin (snd (interrupt_handler self hostname ssh_cmd w))) \<le> length (stdin w)"
proof -
  have "length (stdin (snd (pid_loop self hostname ssh_cmd ps w'))) \<le> length (stdin w)"
    if "stdin w' = stdin w" for ps w'
    using stdin_pid_loop_snd [of self hostname ssh_cmd ps w'] that by simp
  then show ?thesis
    by (simp add: interrupt_handler_def case_prod_beta split: sum.splits)
qed

lemma stdin_cleanup_staging [simp]: "stdin (cleanup_staging ssh_cmd w) = stdin w"
  by (simp add: cleanup_staging_def Let_def)

lemma stdin_remote_command [simp]: "stdin (snd (remote_command self ssh_cmd w)) = stdin w"
  by (simp add: remote_command_def case_prod_beta split: sum.splits)

lemma stdin_remote_action:
  "length (stdin (snd (remote_action self w))) \<le> length (stdin w)"
proof -
  have "length (stdin (snd (interrupt_handler self h s w'))) \<le> length (stdin w)"
    if "stdin w' = stdin w" for h s w'
    using stdin_interrupt_handler [of self h s w'] that by simp
  then show ?thesis
    by (simp add: remote_action_def case_prod_beta split: sum.splits error.splits)
qed

lemma stdin_dispatch: "length (stdin (snd (dispatch self w))) \<le> length (stdin w)"
proof (cases "get_type self")
  case (Inl e)
  then show ?thesis by (simp add: dispatch_def)
next
  case (Inr t)
  show ?thesis
    using stdin_remote_action [of self w] by (simp add: dispatch_kind [OF Inr])
qed

lemma stdin_manual_gate:
  "length (stdin (snd (manual_gate self interactive w))) \<le> length (stdin w)"
  using stdin_input_line_le [of proceed_prompt w]
  by (auto simp: manual_gate_def case_prod_beta split: sum.splits)

text \<open>
  \<open>Command.execute\<close>. The retry calls \<open>self.execute(interactive)\<close>: the flag
  \<open>force\<close> takes its default. Every retry has taken a line from the operator,
  which is why the recursion ends.
\<close>

function execute :: "command \<Rightarrow> bool \<Rightarrow> bool \<Rightarrow> world \<Rightarrow> (error + unit) \<times> world" where
  "execute self interactive force w =
     (case get_resolved_value self w of
        (Inl e, w1) \<Rightarrow> (Inl e, w1)
      | (Inr v, w1) \<Rightarrow>
          (case manual_gate self interactive (LOG ''notice'' (step_msg self v) w1) of
             (Inl e, w2) \<Rightarrow> (Inl e, w2)
           | (Inr False, w2) \<Rightarrow> (Inr (), w2)
           | (Inr True, w2) \<Rightarrow>
               (case dispatch self w2 of
                  (Inl e, w3) \<Rightarrow> (Inl e, w3)
                | (Inr return_code, w3) \<Rightarrow>
                    if return_code \<noteq> 0 then
                      (let w4 = LOG ''error'' (failed_msg self return_code) w3 in
                       if force then (Inr (), w4)
                       else
                         (case input_line failure_prompt w4 of
                            (Inl e, w5) \<Rightarrow> (Inl e, w5)
                          | (Inr err_answer, w5) \<Rightarrow>
                              if err_answer = ''r'' then execute self interactive False w5
                              else if err_answer = ''a'' then
                                (Inl (AbortException (str_int return_code)), w5)
                              else (Inr (), w5)))
                    else (Inr (), w3))))"
  by pat_completeness auto
termination
proof (relation "measure (\<lambda>(self, interactive, force, w). length (stdin w))", goal_cases)
  case 1
  show ?case by simp
next
  case (2 self interactive force w p1 w1 v p2 w2 b p3 w3 return_code w4 p5 w5 err_answer)
  have "stdin w1 = stdin w"
    using stdin_get_resolved_value [of self w] 2(1) [symmetric] by simp
  moreover have "length (stdin w2) \<le> length (stdin w1)"
    using stdin_manual_gate [of self interactive "LOG ''notice'' (step_msg self v) w1"]
      2(3) [symmetric] by simp
  moreover have "length (stdin w3) \<le> length (stdin w2)"
    using stdin_dispatch [of self w2] 2(6) [symmetric] by simp
  moreover have "stdin w4 = err_answer # stdin w5"
    using stdin_input_line [of failure_prompt w4 err_answer w5] 2(11,12) by simp
  moreover have "stdin w4 = stdin w3"
    using 2(9) by simp
  ultimately show ?case by simp
qed

declare execute.simps [simp del]

section \<open>Worlds reached by a step\<close>

text \<open>The world after \<open>get_resolved_value\<close>: one dict more, nothing else changed.\<close>

definition after_resolution :: "command \<Rightarrow> world \<Rightarrow> world" where
  "after_resolution self w =
     w\<lparr>dicts := (dicts w)(next_ref w := merged_mapping self w), next_ref := Suc (next_ref w)\<rparr>"

text \<open>The text \<open>_build_command\<close> returns when the template resolves to \<open>v\<close>.\<close>

definition command_text :: "command \<Rightarrow> string \<Rightarrow> string \<Rightarrow> string" where
  "command_text self path v =
     (if imports_list self = [] then v
      else ''. '' @ path @ ''/'' @ join (''; . '' @ path @ ''/'') (imports_list self) @ ''; '' @ v)"

text \<open>The world after a local step without capture has run its command.\<close>

definition ran_locally :: "command \<Rightarrow> string \<Rightarrow> world \<Rightarrow> world" where
  "ran_locally self v w =
     emit (Run (command_text self IMPORT_PATH v))
       (LOG ''debug'' (''Executing: '' @ command_text self IMPORT_PATH v) (after_resolution self w))"

text \<open>A local step without capture that fails, in a call that is not interactive.\<close>

definition failed_locally :: "command \<Rightarrow> string \<Rightarrow> int \<Rightarrow> string list \<Rightarrow> world \<Rightarrow> world" where
  "failed_locally self v return_code rest w =
     emit (Prompt failure_prompt)
       ((LOG ''error'' (failed_msg self return_code)
          (ran_locally self v (LOG ''notice'' (step_msg self v) (after_resolution self w))))
        \<lparr>stdin := rest\<rparr>)"

section \<open>Sample data\<close>

text \<open>
  A world and steps to run the definitions on. The dict of variables, at
  reference 0, holds a user variable whose name starts with \<open>const_\<close>; there is
  one constant, \<open>home\<close>.
\<close>

definition sample_world :: world where
  "sample_world =
     \<lparr>dicts = (\<lambda>r. Map.empty)(0 := [''user'' \<mapsto> ''bob'', ''const_home'' \<mapsto> ''/home'']),
      next_ref = 1, CONSTANTS = [(''home'', ''/srv'')], stdin = [], trace = [],
      run_results = (\<lambda>n. Completed 0 []), pid_results = (\<lambda>n. (0, [])),
      cleanup_results = (\<lambda>n. 0), exec_results = (\<lambda>n. ExecRaised [])\<rparr>"

definition sample_step :: "string \<Rightarrow> string \<Rightarrow> command" where
  "sample_step k tmpl =
     \<lparr>pipeline_cmd = [(k, Str tmpl)], index = 1, systems = [''web1'' \<mapsto> ''10.0.0.1''],
      vars = 0, imports_list = [], orig_key = k, assignment = False, assignment_var = [],
      key = k, value_tmpl = Str tmpl\<rparr>"

section \<open>Properties of the classifier and of the construction\<close>

subsection \<open>Searching a literal\<close>

lemma starts_with_append: "starts_with p (p @ b)"
  by (simp add: starts_with_def)

lemma starts_with_iff: "starts_with p s \<longleftrightarrow> (\<exists>b. s = p @ b)"
  unfolding starts_with_def
  by (metis append_eq_conv_conj append_take_drop_id)

lemma after_first_occurs: "after_first p (a @ p @ b) \<noteq> None"
proof (induction a)
  case Nil
  show ?case
  proof (cases "p @ b")
    case Nil
    then show ?thesis by simp
  next
    case (Cons c cs)
    have "starts_with p (c # cs)" using starts_with_append [of p b] Cons by simp
    then show ?thesis using Cons by simp
  qed
next
  case (Cons x a)
  then show ?case by simp
qed

lemma after_first_Some: "after_first p s = Some r \<Longrightarrow> \<exists>a. s = a @ p @ r"
proof (induction s)
  case Nil
  then show ?case by (simp split: if_splits)
next
  case (Cons c cs)
  show ?case
  proof (cases "starts_with p (c # cs)")
    case True
    then have "r = drop (length p) (c # cs)" using Cons.prems by simp
    moreover from True have "take (length p) (c # cs) = p" by (simp add: starts_with_def)
    ultimately have "c # cs = [] @ p @ r" by (metis append_Nil append_take_drop_id)
    then show ?thesis by blast
  next
    case False
    then have "after_first p cs = Some r" using Cons.prems by simp
    then obtain a where "cs = a @ p @ r" using Cons.IH by blast
    then have "c # cs = (c # a) @ p @ r" by simp
    then show ?thesis by blast
  qed
qed

lemma after_first_iff: "after_first p s \<noteq> None \<longleftrightarrow> (\<exists>a b. s = a @ p @ b)"
  using after_first_occurs after_first_Some by (metis not_None_eq)

lemma after_first_leftmost:
  "(\<And>a' b'. a @ p @ h = a' @ p @ b' \<Longrightarrow> length a \<le> length a') \<Longrightarrow>
   after_first p (a @ p @ h) = Some h"
proof (induction a)
  case Nil
  show ?case
  proof (cases "p @ h")
    case Nil
    then show ?thesis by simp
  next
    case (Cons c cs)
    have "starts_with p (c # cs)" using starts_with_append [of p h] Cons by simp
    moreover have "drop (length p) (c # cs) = h" using Cons [symmetric] by simp
    ultimately show ?thesis using Cons by simp
  qed
next
  case (Cons x a)
  have "\<not> starts_with p (x # a @ p @ h)"
  proof
    assume "starts_with p (x # a @ p @ h)"
    then obtain b where "x # a @ p @ h = p @ b" using starts_with_iff by blast
    then have "(x # a) @ p @ h = [] @ p @ b" by simp
    from Cons.prems [OF this] show False by simp
  qed
  moreover have "after_first p (a @ p @ h) = Some h"
  proof (rule Cons.IH)
    fix a' b' assume "a @ p @ h = a' @ p @ b'"
    then have "(x # a) @ p @ h = (x # a') @ p @ b'" by simp
    from Cons.prems [OF this] show "length a \<le> length a'" by simp
  qed
  ultimately show ?case by simp
qed

lemma rest_of_line_id: "newline \<notin> set h \<Longrightarrow> rest_of_line h = h"
  by (auto simp: rest_of_line_def takeWhile_eq_all_conv)

lemma get_type_remote_iff:
  "get_type self = Inr ''remote'' \<longleftrightarrow> (\<exists>a b. key self = a @ ''remote@'' @ b)"
proof -
  have "\<not> (\<exists>a b. ''local'' = a @ ''remote@'' @ (b::string))"
    using after_first_iff [of "''remote@''" "''local''"] by (simp add: starts_with_def)
  moreover have "\<not> (\<exists>a b. ''manual'' = a @ ''remote@'' @ (b::string))"
    using after_first_iff [of "''remote@''" "''manual''"] by (simp add: starts_with_def)
  moreover have "\<not> (\<exists>a b. ''python'' = a @ ''remote@'' @ (b::string))"
    using after_first_iff [of "''remote@''" "''python''"] by (simp add: starts_with_def)
  ultimately show ?thesis
    using after_first_iff [of "''remote@''" "key self"]
    by (auto simp: get_type_def)
qed

lemma get_system_first_marker:
  assumes k: "key self = a @ ''remote@'' @ h"
    and least: "\<And>a' b'. key self = a' @ ''remote@'' @ b' \<Longrightarrow> length a \<le> length a'"
  shows "get_system self =
           (case systems self (rest_of_line h) of
              None \<Rightarrow> Inl (KeyError (rest_of_line h))
            | Some host \<Rightarrow> Inr host)"
proof -
  have "after_first ''remote@'' (a @ ''remote@'' @ h) = Some h"
    by (rule after_first_leftmost) (use k least in auto)
  then have "after_first ''remote@'' (key self) = Some h" using k by simp
  moreover have "get_type self = Inr ''remote''" using get_type_remote_iff k by blast
  ultimately show ?thesis by (simp add: get_system_def)
qed

subsection \<open>The claims on classification, host lookup and construction\<close>

text \<open>
  Claim C4. The kind of a step is \<open>local\<close>, \<open>manual\<close> or \<open>python\<close> exactly when its
  normalized key is that word, and \<open>remote\<close> exactly when the key contains the
  marker \<open>remote@\<close>; for every other key \<open>get_type\<close> raises
  \<open>UnknownCommandException\<close> with a message that names the key. For a key of kind
  remote the name looked up in \<open>systems\<close> is the text after the leftmost marker,
  up to the end of its line (all of it when it holds no line feed).
\<close>

theorem get_type_classification:
  "(get_type self = Inr ''local'' \<longleftrightarrow> key self = ''local'') \<and>
   (get_type self = Inr ''manual'' \<longleftrightarrow> key self = ''manual'') \<and>
   (get_type self = Inr ''python'' \<longleftrightarrow> key self = ''python'') \<and>
   (get_type self = Inr ''remote'' \<longleftrightarrow> (\<exists>a b. key self = a @ ''remote@'' @ b)) \<and>
   (get_type self = Inl (UnknownCommandException (''Command type '' @ key self @ '' is not known.''))
      \<longleftrightarrow> key self \<noteq> ''local'' \<and> key self \<noteq> ''manual'' \<and> key self \<noteq> ''python'' \<and>
          \<not> (\<exists>a b. key self = a @ ''remote@'' @ b)) \<and>
   (\<forall>a h. key self = a @ ''remote@'' @ h \<and>
       (\<forall>a' b'. key self = a' @ ''remote@'' @ b' \<longrightarrow> length a \<le> length a') \<longrightarrow>
       get_system self =
         (case systems self (rest_of_line h) of
            None \<Rightarrow> Inl (KeyError (rest_of_line h))
          | Some host \<Rightarrow> Inr host) \<and>
       (newline \<notin> set h \<longrightarrow> rest_of_line h = h))"
proof -
  have r: "get_type self = Inr ''remote'' \<longleftrightarrow> (\<exists>a b. key self = a @ ''remote@'' @ b)"
    by (rule get_type_remote_iff)
  have l: "get_type self = Inr ''local'' \<longleftrightarrow> key self = ''local''"
    by (simp add: get_type_def)
  have m: "get_type self = Inr ''manual'' \<longleftrightarrow> key self = ''manual''"
    by (simp add: get_type_def)
  have p: "get_type self = Inr ''python'' \<longleftrightarrow> key self = ''python''"
    by (simp add: get_type_def)
  have u: "get_type self = Inl (UnknownCommandException (''Command type '' @ key self @ '' is not known.''))
      \<longleftrightarrow> key self \<noteq> ''local'' \<and> key self \<noteq> ''manual'' \<and> key self \<noteq> ''python'' \<and>
          \<not> (\<exists>a b. key self = a @ ''remote@'' @ b)"
    using after_first_iff [of "''remote@''" "key self"] by (auto simp: get_type_def)
  have h: "get_system self =
         (case systems self (rest_of_line h) of
            None \<Rightarrow> Inl (KeyError (rest_of_line h))
          | Some host \<Rightarrow> Inr host) \<and>
       (newline \<notin> set h \<longrightarrow> rest_of_line h = h)"
    if "key self = a @ ''remote@'' @ h"
      and "\<forall>a' b'. key self = a' @ ''remote@'' @ b' \<longrightarrow> length a \<le> length a'"
    for a h
    using get_system_first_marker [of self a h] rest_of_line_id [of h] that by blast
  show ?thesis using l m p r u h by blast
qed

theorem get_type_classification_witness:
  "get_type \<lparr>pipeline_cmd = [(''out=remote@web1'', Str ''uptime'')], index = 1,
      systems = [''web1'' \<mapsto> ''10.0.0.1''], vars = 0, imports_list = [],
      orig_key = ''out=remote@web1'', assignment = True, assignment_var = ''out'',
      key = ''remote@web1'', value_tmpl = Str ''uptime''\<rparr> = Inr ''remote'' \<and>
   get_system \<lparr>pipeline_cmd = [(''out=remote@web1'', Str ''uptime'')], index = 1,
      systems = [''web1'' \<mapsto> ''10.0.0.1''], vars = 0, imports_list = [],
      orig_key = ''out=remote@web1'', assignment = True, assignment_var = ''out'',
      key = ''remote@web1'', value_tmpl = Str ''uptime''\<rparr> = Inr ''10.0.0.1''"
proof -
  let ?c = "\<lparr>pipeline_cmd = [(''out=remote@web1'', Str ''uptime'')], index = 1,
      systems = [''web1'' \<mapsto> ''10.0.0.1''], vars = 0, imports_list = [],
      orig_key = ''out=remote@web1'', assignment = True, assignment_var = ''out'',
      key = ''remote@web1'', value_tmpl = Str ''uptime''\<rparr>"
  note all = get_type_classification [of ?c]
  note remote = all [THEN conjunct2, THEN conjunct2, THEN conjunct2, THEN conjunct1]
  note host = all [THEN conjunct2, THEN conjunct2, THEN conjunct2, THEN conjunct2,
      THEN conjunct2, THEN spec [of _ "[]"], THEN spec [of _ "''web1''"], THEN mp]
  have "get_type ?c = Inr ''remote''"
    by (rule remote [THEN iffD2], rule exI [of _ "[]"], rule exI [of _ "''web1''"]) simp
  moreover have "get_system ?c =
         (case systems ?c (rest_of_line ''web1'') of
            None \<Rightarrow> Inl (KeyError (rest_of_line ''web1''))
          | Some host \<Rightarrow> Inr host) \<and>
       (newline \<notin> set ''web1'' \<longrightarrow> rest_of_line ''web1'' = ''web1'')"
    by (rule host) simp
  moreover have "newline \<notin> set ''web1''" by (simp add: newline_def)
  ultimately show ?thesis by simp
qed

text \<open>
  Claim C5. For a key \<open>remote@h\<close>, \<open>h\<close> a host name (a text with no line feed; the
  pattern of \<open>get_system\<close> reads the name up to the end of the line):
  \<open>get_system\<close> returns \<open>systems[h]\<close> when \<open>h\<close> is a key of \<open>systems\<close>, and raises the
  \<open>KeyError\<close> of the lookup, carrying \<open>h\<close>, when it is not.
\<close>

theorem get_system_remote:
  assumes "key self = ''remote@'' @ h" and "newline \<notin> set h"
  shows "(\<forall>host. systems self h = Some host \<longrightarrow> get_system self = Inr host) \<and>
         (systems self h = None \<longrightarrow> get_system self = Inl (KeyError h))"
proof -
  have "key self = [] @ ''remote@'' @ h" using assms(1) by simp
  moreover have "length ([]::string) \<le> length a'" for a' by simp
  ultimately have "get_system self =
      (case systems self (rest_of_line h) of
         None \<Rightarrow> Inl (KeyError (rest_of_line h))
       | Some host \<Rightarrow> Inr host)"
    by (rule get_system_first_marker)
  then show ?thesis using rest_of_line_id [OF assms(2)] by simp
qed

theorem get_system_remote_witness:
  "get_system \<lparr>pipeline_cmd = [], index = 2, systems = [''db'' \<mapsto> ''db.example.org''],
      vars = 0, imports_list = [], orig_key = ''remote@db'', assignment = False,
      assignment_var = [], key = ''remote@db'', value_tmpl = Str ''df''\<rparr>
     = Inr ''db.example.org'' \<and>
   get_system \<lparr>pipeline_cmd = [], index = 2, systems = [''db'' \<mapsto> ''db.example.org''],
      vars = 0, imports_list = [], orig_key = ''remote@web'', assignment = False,
      assignment_var = [], key = ''remote@web'', value_tmpl = Str ''df''\<rparr>
     = Inl (KeyError ''web'')"
proof -
  let ?s = "[''db'' \<mapsto> ''db.example.org'']"
  let ?c = "\<lparr>pipeline_cmd = [], index = 2, systems = ?s,
      vars = 0, imports_list = [], orig_key = ''remote@db'', assignment = False,
      assignment_var = [], key = ''remote@db'', value_tmpl = Str ''df''\<rparr>"
  let ?d = "\<lparr>pipeline_cmd = [], index = 2, systems = ?s,
      vars = 0, imports_list = [], orig_key = ''remote@web'', assignment = False,
      assignment_var = [], key = ''remote@web'', value_tmpl = Str ''df''\<rparr>"
  have "get_system ?c = Inr ''db.example.org''"
    using get_system_remote [of ?c "''db''"] by (simp add: newline_def)
  moreover have "get_system ?d = Inl (KeyError ''web'')"
    using get_system_remote [of ?d "''web''"] by (simp add: newline_def)
  ultimately show ?thesis by simp
qed

text \<open>
  Claim C10. For a step of a kind other than remote (local, manual or python)
  \<open>get_system\<close> does not raise: it returns \<open>localhost\<close>, whatever \<open>systems\<close> holds.
\<close>

theorem get_system_not_remote:
  assumes "get_type self = Inr t" and "t \<noteq> ''remote''"
  shows "(t = ''local'' \<or> t = ''manual'' \<or> t = ''python'') \<and>
         get_system self = Inr ''localhost'' \<and>
         get_system (self\<lparr>systems := sys\<rparr>) = Inr ''localhost''"
proof -
  have t: "t = ''local'' \<or> t = ''manual'' \<or> t = ''python''"
    using assms by (auto simp: get_type_def split: if_splits)
  have "get_type (self\<lparr>systems := sys\<rparr>) = get_type self"
    by (simp add: get_type_def)
  then show ?thesis using assms t by (simp add: get_system_def)
qed

theorem get_system_not_remote_witness:
  "get_type \<lparr>pipeline_cmd = [], index = 3, systems = Map.empty, vars = 0, imports_list = [],
      orig_key = ''manual'', assignment = False, assignment_var = [], key = ''manual'',
      value_tmpl = Str ''Restart the router''\<rparr> = Inr ''manual'' \<and>
   get_system \<lparr>pipeline_cmd = [], index = 3, systems = Map.empty, vars = 0, imports_list = [],
      orig_key = ''manual'', assignment = False, assignment_var = [], key = ''manual'',
      value_tmpl = Str ''Restart the router''\<rparr> = Inr ''localhost''"
proof -
  let ?c = "\<lparr>pipeline_cmd = [], index = 3, systems = Map.empty, vars = 0, imports_list = [],
      orig_key = ''manual'', assignment = False, assignment_var = [], key = ''manual'',
      value_tmpl = Str ''Restart the router''\<rparr>"
  have t: "get_type ?c = Inr ''manual''" by (simp add: get_type_def)
  have "get_system ?c = Inr ''localhost''"
    using get_system_not_remote [OF t, of Map.empty] by simp
  then show ?thesis using t by simp
qed

text \<open>
  Claim C8. A step is built from the first item of its entry: the attributes
  set by the loop are those of the entry made of that item alone, whatever items
  follow (only \<open>pipeline_cmd\<close>, which keeps the entry itself, differs). When the
  value of that item is a mapping with exactly one key, the template is that key
  in braces, and the other attributes come from the key of the item.
\<close>

theorem init_first_pair:
  "init ((k, v) # others) i sys r imps =
     map_sum id (map_option (\<lambda>c. c\<lparr>pipeline_cmd := (k, v) # others\<rparr>)) (init [(k, v)] i sys r imps) \<and>
   init ((k, Dict [(k', x)]) # others) i sys r imps =
     Inr (Some \<lparr>pipeline_cmd = (k, Dict [(k', x)]) # others, index = i, systems = sys, vars = r,
        imports_list = imps, orig_key = k, assignment = fst (get_assignment_var k),
        assignment_var = fst (snd (get_assignment_var k)),
        key = snd (snd (get_assignment_var k)),
        value_tmpl = Str (''{'' @ k' @ ''}'')\<rparr>)"
  by (simp add: init_def split: prod.splits yaml_value.splits list.splits)

theorem init_first_pair_witness:
  "init [(''host=local'', Dict [(''name'', Null)]), (''remote@web1'', Str ''uptime'')] 1
      Map.empty 0 [] =
     Inr (Some \<lparr>pipeline_cmd = [(''host=local'', Dict [(''name'', Null)]), (''remote@web1'', Str ''uptime'')],
        index = 1, systems = Map.empty, vars = 0, imports_list = [], orig_key = ''host=local'',
        assignment = True, assignment_var = ''host'', key = ''local'',
        value_tmpl = Str ''{name}''\<rparr>)"
proof -
  have g: "get_assignment_var ''host=local'' = (True, ''host'', ''local'')"
    by (simp add: get_assignment_var_def assignment_groups_def assignment_line_def
        rest_of_line_def newline_def)
  show ?thesis
    using init_first_pair [of "''host=local''" "Dict [(''name'', Null)]"
        "[(''remote@web1'', Str ''uptime'')]" 1 Map.empty 0 "[]" "''name''" Null, THEN conjunct2]
    by (simp add: g)
qed

section \<open>Properties of the resolution\<close>

subsection \<open>The scanner of the format string\<close>

lemma prepend_Nil [simp]: "prepend [] r = r"
  by (cases r) simp_all

lemma prepend_prepend [simp]: "prepend a (prepend b r) = prepend (a @ b) r"
  by (cases r) simp_all

lemma prepend_eq_Inr: "prepend x r = Inr z \<longleftrightarrow> (\<exists>y. r = Inr y \<and> z = x @ y)"
  by (cases r) auto

lemma format_from_append:
  "format_from m st s = Inr x \<Longrightarrow>
   format_from m st (s @ t) = prepend x (format_from m None t)"
proof (induction m st s arbitrary: x rule: format_from.induct)
  case (1 m)
  then show ?case by simp
next
  case (2 m name)
  then show ?case by simp
next
  case (3 m c cs)
  show ?case
  proof (cases "c = CHR ''{''")
    case open_brace: True
    show ?thesis
    proof (cases cs)
      case Nil
      then show ?thesis using "3.prems" open_brace by simp
    next
      case (Cons d ds)
      show ?thesis
      proof (cases "d = CHR ''{''")
        case True
        then obtain y where y: "format_from m None ds = Inr y" and x: "x = CHR ''{'' # y"
          using "3.prems" open_brace Cons by (auto simp: prepend_eq_Inr)
        have "format_from m None (ds @ t) = prepend y (format_from m None t)"
          using "3.IH"(1) [OF open_brace Cons True y] .
        then show ?thesis
          using open_brace Cons True x by simp
      next
        case False
        then have "format_from m (Some []) cs = Inr x"
          using "3.prems" open_brace Cons by simp
        then have "format_from m (Some []) (cs @ t) = prepend x (format_from m None t)"
          using "3.IH"(2) [OF open_brace Cons False] by simp
        then show ?thesis using open_brace Cons False by simp
      qed
    qed
  next
    case no_open: False
    show ?thesis
    proof (cases "c = CHR ''}''")
      case close_brace: True
      show ?thesis
      proof (cases cs)
        case Nil
        then show ?thesis using "3.prems" no_open close_brace by simp
      next
        case (Cons d ds)
        show ?thesis
        proof (cases "d = CHR ''}''")
          case True
          then obtain y where y: "format_from m None ds = Inr y" and x: "x = CHR ''}'' # y"
            using "3.prems" close_brace Cons by (auto simp: prepend_eq_Inr)
          have "format_from m None (ds @ t) = prepend y (format_from m None t)"
            using "3.IH"(3) [OF no_open close_brace Cons True y] .
          then show ?thesis
            using close_brace Cons True x by simp
        next
          case False
          then show ?thesis using "3.prems" close_brace Cons by simp
        qed
      qed
    next
      case False
      then obtain y where y: "format_from m None cs = Inr y" and x: "x = c # y"
        using "3.prems" no_open by (auto simp: prepend_eq_Inr)
      have "format_from m None (cs @ t) = prepend y (format_from m None t)"
        using "3.IH"(4) [OF no_open False y] .
      then show ?thesis using no_open False x by simp
    qed
  qed
next
  case (4 m name c cs)
  show ?case
  proof (cases "c = CHR ''}''")
    case True
    then obtain v y where v: "render_field m name = Inr v"
      and y: "format_from m None cs = Inr y" and x: "x = v @ y"
      using "4.prems" by (auto simp: prepend_eq_Inr split: sum.splits)
    have "format_from m None (cs @ t) = prepend y (format_from m None t)"
      using "4.IH"(1) [OF True v y] .
    then show ?thesis using True v x by simp
  next
    case False
    then have rest: "c \<noteq> CHR ''{''" "\<not> (c = CHR ''!'' \<or> c = CHR '':'' \<or> c = CHR ''.'' \<or> c = CHR ''['')"
      and f: "format_from m (Some (name @ [c])) cs = Inr x"
      using "4.prems" by (auto split: if_splits)
    have "format_from m (Some (name @ [c])) (cs @ t) = prepend x (format_from m None t)"
      using "4.IH"(2) [OF False rest f] .
    then show ?thesis using False rest by simp
  qed
qed

lemma format_from_field:
  "list_all name_char n \<Longrightarrow>
   format_from m (Some acc) (n @ CHR ''}'' # t) =
     (case render_field m (acc @ n) of
        Inl e \<Rightarrow> Inl e
      | Inr v \<Rightarrow> prepend v (format_from m None t))"
  by (induction n arbitrary: acc) (auto simp: name_char_def)

lemma format_from_braces:
  assumes "list_all name_char n"
  shows "format_from m None (CHR ''{'' # n @ CHR ''}'' # t) =
     (case render_field m n of
        Inl e \<Rightarrow> Inl e
      | Inr v \<Rightarrow> prepend v (format_from m None t))"
proof (cases n)
  case Nil
  then show ?thesis by simp
next
  case (Cons d ds)
  then have "d \<noteq> CHR ''{''" using assms by (auto simp: name_char_def)
  then have "format_from m None (CHR ''{'' # n @ CHR ''}'' # t)
      = format_from m (Some []) (n @ CHR ''}'' # t)"
    using Cons by simp
  then show ?thesis using format_from_field [OF assms, of m "[]" t] by simp
qed

lemma render_keyword:
  "keyword_name n \<Longrightarrow>
   render_field m n = (case m n of None \<Rightarrow> Inl (KeyError n) | Some v \<Rightarrow> Inr v)"
  by (simp add: render_field_def keyword_name_def)

lemma str_format_field:
  assumes "str_format pre m = Inr a" and "keyword_name n"
  shows "str_format (pre @ ''{'' @ n @ ''}'' @ post) m =
     (case m n of
        None \<Rightarrow> Inl (KeyError n)
      | Some v \<Rightarrow> prepend (a @ v) (str_format post m))"
proof -
  have n: "list_all name_char n" using assms(2) by (simp add: keyword_name_def)
  have split: "pre @ ''{'' @ n @ ''}'' @ post = pre @ (CHR ''{'' # n @ CHR ''}'' # post)"
    by simp
  have field: "format_from m None (CHR ''{'' # n @ CHR ''}'' # post) =
      (case m n of None \<Rightarrow> Inl (KeyError n)
       | Some v \<Rightarrow> prepend v (format_from m None post))"
    unfolding format_from_braces [OF n] render_keyword [OF assms(2)]
    by (cases "m n") simp_all
  have "str_format (pre @ ''{'' @ n @ ''}'' @ post) m
      = prepend a (format_from m None (CHR ''{'' # n @ CHR ''}'' # post))"
    unfolding split str_format_def
    by (rule format_from_append) (use assms(1) in \<open>simp add: str_format_def\<close>)
  then show ?thesis
    unfolding field str_format_def
    by (cases "m n") simp_all
qed

subsection \<open>The merged mapping\<close>

lemma with_constants_Nil [simp]: "with_constants [] m = m"
  by (simp add: with_constants_def)

lemma with_constants_Cons [simp]:
  "with_constants (c # cs) m = with_constants cs (set_constant c m)"
  by (simp add: with_constants_def)

lemma set_const_dicts:
  "set_const r c w = w\<lparr>dicts := (dicts w)(r := set_constant c (dicts w r))\<rparr>"
  by (simp add: set_const_def dict_setitem_def set_constant_def)

lemma fold_set_const:
  "fold (set_const r) cs w = w\<lparr>dicts := (dicts w)(r := with_constants cs (dicts w r))\<rparr>"
proof (induction cs arbitrary: w)
  case Nil
  show ?case by simp
next
  case (Cons c cs)
  have "fold (set_const r) (c # cs) w = fold (set_const r) cs (set_const r c w)"
    by simp
  also have "\<dots> = (set_const r c w)\<lparr>dicts := (dicts (set_const r c w))
      (r := with_constants cs (dicts (set_const r c w) r))\<rparr>"
    by (rule Cons.IH)
  also have "\<dots> = w\<lparr>dicts := (dicts w)(r := with_constants (c # cs) (dicts w r))\<rparr>"
    by (simp add: set_const_dicts)
  finally show ?case .
qed

lemma with_constants_other:
  "n \<notin> const_name ` fst ` set cs \<Longrightarrow> with_constants cs m n = m n"
  by (induction cs arbitrary: m) (auto simp: set_constant_def)

lemma with_constants_member:
  "distinct (map fst cs) \<Longrightarrow> (k, v) \<in> set cs \<Longrightarrow>
   with_constants cs m (const_name k) = Some v"
proof (induction cs arbitrary: m)
  case Nil
  then show ?case by simp
next
  case (Cons c cs)
  show ?case
  proof (cases "(k, v) \<in> set cs")
    case True
    then show ?thesis using Cons by simp
  next
    case False
    then have c: "c = (k, v)" using Cons.prems(2) by simp
    have "const_name k \<notin> const_name ` fst ` set cs"
      using Cons.prems(1) c by (auto simp: const_name_def)
    then show ?thesis using c by (simp add: with_constants_other set_constant_def)
  qed
qed

lemma with_constants_None:
  "with_constants cs m n = None \<longleftrightarrow>
     m n = None \<and> n \<notin> const_name ` fst ` set cs"
proof (induction cs arbitrary: m)
  case Nil
  show ?case by simp
next
  case (Cons c cs)
  show ?case by (auto simp: Cons.IH set_constant_def)
qed

lemma merged_variables_eq:
  "merged_variables self w =
     (next_ref w,
      w\<lparr>dicts := (dicts w)(next_ref w := with_constants (CONSTANTS w) (dicts w (vars self))),
        next_ref := Suc (next_ref w)\<rparr>)"
  unfolding merged_variables_def dict_copy_def
  by (simp add: fold_set_const)

lemma merged_mapping_eq:
  "merged_mapping self w = with_constants (CONSTANTS w) (dicts w (vars self))"
  by (simp add: merged_mapping_def merged_variables_eq)

lemma get_resolved_value_fst:
  "fst (get_resolved_value self w) =
     (case value_tmpl self of
        Str s \<Rightarrow> str_format s (merged_mapping self w)
      | _ \<Rightarrow> Inl AttributeError)"
  by (simp add: get_resolved_value_def merged_mapping_def case_prod_beta split: yaml_value.splits)

lemma get_resolved_value_snd:
  "snd (get_resolved_value self w) = snd (merged_variables self w)"
  by (simp add: get_resolved_value_def case_prod_beta split: yaml_value.splits)

lemma merged_mapping_None:
  "merged_mapping self w n = None \<longleftrightarrow>
     dicts w (vars self) n = None \<and> n \<notin> const_name ` fst ` set (CONSTANTS w)"
  by (simp add: merged_mapping_eq with_constants_None)

lemma keyword_name_const: "list_all name_char X \<Longrightarrow> keyword_name (const_name X)"
  by (simp add: keyword_name_def name_char_def is_digit_def const_name_def)

subsection \<open>The claims on resolution\<close>

text \<open>
  Claim C6. Let the template hold the placeholder \<open>{const_X}\<close>, \<open>X\<close> a name, between
  a text \<open>pre\<close> and a text \<open>post\<close> that resolve by themselves to \<open>a\<close> and \<open>b\<close>. If
  \<open>X\<close> is a key of \<open>CONSTANTS\<close> (whose keys are distinct, as those of a dict are)
  with value \<open>v\<close>, resolution returns \<open>a\<close>, then \<open>v\<close> as it is, then \<open>b\<close>. And
  if the template holds a placeholder \<open>{n}\<close> after a text that resolves, \<open>n\<close> a
  keyword name bound neither by the variables nor, as \<open>const_k\<close>, by a constant
  \<open>k\<close>, resolution raises \<open>KeyError\<close> with that name: nothing is put in its
  place.
\<close>

theorem resolution_of_placeholders:
  "(\<forall>pre post X v a b.
      value_tmpl self = Str (pre @ ''{'' @ const_name X @ ''}'' @ post) \<and> list_all name_char X \<and>
      distinct (map fst (CONSTANTS w)) \<and> (X, v) \<in> set (CONSTANTS w) \<and>
      str_format pre (merged_mapping self w) = Inr a \<and>
      str_format post (merged_mapping self w) = Inr b
      \<longrightarrow> fst (get_resolved_value self w) = Inr (a @ v @ b)) \<and>
   (\<forall>pre post n a.
      value_tmpl self = Str (pre @ ''{'' @ n @ ''}'' @ post) \<and> keyword_name n \<and>
      dicts w (vars self) n = None \<and> n \<notin> const_name ` fst ` set (CONSTANTS w) \<and>
      str_format pre (merged_mapping self w) = Inr a
      \<longrightarrow> merged_mapping self w n = None \<and>
          fst (get_resolved_value self w) = Inl (KeyError n))"
proof (intro conjI allI impI)
  fix pre post X v a b
  assume h: "value_tmpl self = Str (pre @ ''{'' @ const_name X @ ''}'' @ post) \<and> list_all name_char X \<and>
      distinct (map fst (CONSTANTS w)) \<and> (X, v) \<in> set (CONSTANTS w) \<and>
      str_format pre (merged_mapping self w) = Inr a \<and>
      str_format post (merged_mapping self w) = Inr b"
  let ?m = "merged_mapping self w"
  have bound: "?m (const_name X) = Some v"
    using h by (simp add: merged_mapping_eq with_constants_member)
  have "str_format (pre @ ''{'' @ const_name X @ ''}'' @ post) ?m
      = (case ?m (const_name X) of
           None \<Rightarrow> Inl (KeyError (const_name X))
         | Some u \<Rightarrow> prepend (a @ u) (str_format post ?m))"
    using str_format_field [of pre ?m a "const_name X" post] keyword_name_const [of X] h
    by simp
  then have "str_format (pre @ ''{'' @ const_name X @ ''}'' @ post) ?m = Inr (a @ v @ b)"
    using bound h by simp
  then show "fst (get_resolved_value self w) = Inr (a @ v @ b)"
    using h by (simp add: get_resolved_value_fst)
next
  fix pre post n a
  assume h: "value_tmpl self = Str (pre @ ''{'' @ n @ ''}'' @ post) \<and> keyword_name n \<and>
      dicts w (vars self) n = None \<and> n \<notin> const_name ` fst ` set (CONSTANTS w) \<and>
      str_format pre (merged_mapping self w) = Inr a"
  then show "merged_mapping self w n = None"
    by (simp add: merged_mapping_None)
  then have "str_format (pre @ ''{'' @ n @ ''}'' @ post) (merged_mapping self w) = Inl (KeyError n)"
    using str_format_field [of pre "merged_mapping self w" a n post] h by simp
  then show "fst (get_resolved_value self w) = Inl (KeyError n)"
    using h by (simp add: get_resolved_value_fst)
qed

lemma sample_merged:
  "merged_mapping (sample_step k t) sample_world =
     [''user'' \<mapsto> ''bob'', ''const_home'' \<mapsto> ''/srv'']"
  by (simp add: merged_mapping_eq sample_step_def sample_world_def set_constant_def
      const_name_def)

theorem resolution_of_placeholders_witness:
  "fst (get_resolved_value (sample_step ''local'' ''ls {const_home}/{user}'') sample_world)
     = Inr ''ls /srv/bob'' \<and>
   fst (get_resolved_value (sample_step ''local'' ''echo {missing}'') sample_world)
     = Inl (KeyError ''missing'')"
proof -
  let ?c = "sample_step ''local'' ''ls {const_home}/{user}''"
  let ?d = "sample_step ''local'' ''echo {missing}''"
  note found = resolution_of_placeholders [of ?c sample_world, THEN conjunct1,
      THEN spec [of _ "''ls ''"], THEN spec [of _ "''/{user}''"], THEN spec [of _ "''home''"],
      THEN spec [of _ "''/srv''"], THEN spec [of _ "''ls ''"], THEN spec [of _ "''/bob''"],
      THEN mp]
  note missing = resolution_of_placeholders [of ?d sample_world, THEN conjunct2,
      THEN spec [of _ "''echo ''"], THEN spec [of _ "[]"], THEN spec [of _ "''missing''"],
      THEN spec [of _ "''echo ''"], THEN mp, THEN conjunct2]
  have "fst (get_resolved_value ?c sample_world) = Inr (''ls '' @ ''/srv'' @ ''/bob'')"
  proof (rule found, intro conjI)
    show "value_tmpl ?c = Str (''ls '' @ ''{'' @ const_name ''home'' @ ''}'' @ ''/{user}'')"
      by (simp add: sample_step_def const_name_def)
    show "list_all name_char ''home''" by (simp add: name_char_def)
    show "distinct (map fst (CONSTANTS sample_world))" by (simp add: sample_world_def)
    show "(''home'', ''/srv'') \<in> set (CONSTANTS sample_world)" by (simp add: sample_world_def)
    show "str_format ''ls '' (merged_mapping ?c sample_world) = Inr ''ls ''"
      by (simp add: str_format_def)
    show "str_format ''/{user}'' (merged_mapping ?c sample_world) = Inr ''/bob''"
      by (simp add: str_format_def sample_merged render_field_def is_digit_def)
  qed
  moreover have "fst (get_resolved_value ?d sample_world) = Inl (KeyError ''missing'')"
  proof (rule missing, intro conjI)
    show "value_tmpl ?d = Str (''echo '' @ ''{'' @ ''missing'' @ ''}'' @ [])"
      by (simp add: sample_step_def)
    show "keyword_name ''missing''"
      by (simp add: keyword_name_def name_char_def is_digit_def)
    show "dicts sample_world (vars ?d) ''missing'' = None"
      by (simp add: sample_step_def sample_world_def)
    show "''missing'' \<notin> const_name ` fst ` set (CONSTANTS sample_world)"
      by (simp add: sample_world_def const_name_def)
    show "str_format ''echo '' (merged_mapping ?d sample_world) = Inr ''echo ''"
      by (simp add: str_format_def)
  qed
  ultimately show ?thesis by simp
qed

text \<open>
  Claim C7, as the source has it. The loop writes each constant \<open>k\<close> into the
  copy under the name \<open>const_k\<close> without looking at what the copy holds, so a
  user variable of that name is overridden in the merged mapping. Every other
  name is bound in the merged mapping as in the dict of variables; each constant
  is bound under its prefixed name; and the dict of variables itself, an object
  allocated before the call, is left as it was by \<open>merged_variables\<close> and by
  \<open>get_resolved_value\<close>.
\<close>

theorem merged_mapping_bindings:
  assumes "vars self < next_ref w"
  shows "(\<forall>n. n \<notin> const_name ` fst ` set (CONSTANTS w) \<longrightarrow>
            merged_mapping self w n = dicts w (vars self) n) \<and>
         (\<forall>k v. distinct (map fst (CONSTANTS w)) \<and> (k, v) \<in> set (CONSTANTS w) \<longrightarrow>
            merged_mapping self w (const_name k) = Some v) \<and>
         dicts (snd (merged_variables self w)) (vars self) = dicts w (vars self) \<and>
         dicts (snd (get_resolved_value self w)) (vars self) = dicts w (vars self)"
proof -
  have "dicts (snd (merged_variables self w)) (vars self) = dicts w (vars self)"
    using assms by (simp add: merged_variables_eq)
  then show ?thesis
    by (simp add: get_resolved_value_snd merged_mapping_eq with_constants_other
        with_constants_member)
qed

theorem merged_mapping_bindings_witness:
  "merged_mapping (sample_step ''local'' ''id'') sample_world ''user'' = Some ''bob'' \<and>
   merged_mapping (sample_step ''local'' ''id'') sample_world (const_name ''home'') = Some ''/srv'' \<and>
   dicts (snd (get_resolved_value (sample_step ''local'' ''id'') sample_world)) 0
     = [''user'' \<mapsto> ''bob'', ''const_home'' \<mapsto> ''/home'']"
proof -
  let ?c = "sample_step ''local'' ''id''"
  have fresh: "vars ?c < next_ref sample_world"
    by (simp add: sample_step_def sample_world_def)
  note all = merged_mapping_bindings [OF fresh]
  have "merged_mapping ?c sample_world ''user'' = dicts sample_world (vars ?c) ''user''"
    by (rule all [THEN conjunct1, THEN spec, THEN mp])
      (simp add: sample_world_def const_name_def)
  moreover have "merged_mapping ?c sample_world (const_name ''home'') = Some ''/srv''"
    by (rule all [THEN conjunct2, THEN conjunct1, THEN spec, THEN spec, THEN mp])
      (simp add: sample_world_def)
  moreover have "dicts (snd (get_resolved_value ?c sample_world)) (vars ?c)
      = dicts sample_world (vars ?c)"
    by (rule all [THEN conjunct2, THEN conjunct2, THEN conjunct2])
  ultimately show ?thesis by (simp add: sample_step_def sample_world_def)
qed

theorem merged_mapping_counterexample:
  "dicts sample_world (vars (sample_step ''local'' ''id'')) ''const_home'' = Some ''/home'' \<and>
   merged_mapping (sample_step ''local'' ''id'') sample_world ''const_home'' = Some ''/srv''"
  by (simp add: sample_merged) (simp add: sample_step_def sample_world_def)

section \<open>Properties of the controller\<close>

subsection \<open>What each statement does to the world\<close>

lemma get_resolved_value_eq:
  "get_resolved_value self w = (fst (get_resolved_value self w), after_resolution self w)"
  by (simp add: prod_eq_iff get_resolved_value_snd merged_variables_eq after_resolution_def
      merged_mapping_eq)

lemma after_resolution_fields [simp]:
  "stdin (after_resolution self w) = stdin w"
  "trace (after_resolution self w) = trace w"
  "CONSTANTS (after_resolution self w) = CONSTANTS w"
  "next_ref (after_resolution self w) = Suc (next_ref w)"
  "run_results (after_resolution self w) = run_results w"
  "pid_results (after_resolution self w) = pid_results w"
  "cleanup_results (after_resolution self w) = cleanup_results w"
  "exec_results (after_resolution self w) = exec_results w"
  "dicts (after_resolution self w) r = (if r = next_ref w then merged_mapping self w else dicts w r)"
  by (simp_all add: after_resolution_def)

lemma emit_fields [simp]:
  "trace (emit ev w) = trace w @ [ev]"
  "CONSTANTS (emit ev w) = CONSTANTS w"
  "next_ref (emit ev w) = next_ref w"
  "dicts (emit ev w) = dicts w"
  "run_results (emit ev w) = run_results w"
  "pid_results (emit ev w) = pid_results w"
  "cleanup_results (emit ev w) = cleanup_results w"
  "exec_results (emit ev w) = exec_results w"
  by (simp_all add: emit_def)

lemma LOG_fields [simp]:
  "trace (LOG l m w) = trace w @ [Log l m]"
  "CONSTANTS (LOG l m w) = CONSTANTS w"
  "next_ref (LOG l m w) = next_ref w"
  "dicts (LOG l m w) = dicts w"
  "run_results (LOG l m w) = run_results w"
  "pid_results (LOG l m w) = pid_results w"
  "cleanup_results (LOG l m w) = cleanup_results w"
  "exec_results (LOG l m w) = exec_results w"
  by (simp_all add: LOG_def)

lemma count_events_simps [simp]:
  "count_events P [] = 0"
  "count_events P (ev # evs) = (if P ev then 1 else 0) + count_events P evs"
  "count_events P (evs @ evs') = count_events P evs + count_events P evs'"
  by (simp_all add: count_events_def)

lemma input_line_Cons:
  "stdin w = a # rest \<Longrightarrow>
   input_line prompt w = (Inr a, emit (Prompt prompt) (w\<lparr>stdin := rest\<rparr>))"
  by (simp add: input_line_def)

lemma input_line_Nil:
  "stdin w = [] \<Longrightarrow> input_line prompt w = (Inl EOFError, emit (Prompt prompt) w)"
  by (simp add: input_line_def)

lemma merged_mapping_cong:
  "CONSTANTS w' = CONSTANTS w \<Longrightarrow> dicts w' (vars self) = dicts w (vars self) \<Longrightarrow>
   merged_mapping self w' = merged_mapping self w"
  by (simp add: merged_mapping_eq)

lemma get_resolved_value_cong:
  "CONSTANTS w' = CONSTANTS w \<Longrightarrow> dicts w' (vars self) = dicts w (vars self) \<Longrightarrow>
   fst (get_resolved_value self w') = fst (get_resolved_value self w)"
  by (simp add: get_resolved_value_fst merged_mapping_cong [of w' w self]
      split: yaml_value.splits)

subsection \<open>The manual gate\<close>

text \<open>
  Claim C9. Let the gate be reached: the template resolves and the kind is
  manual or the run is interactive. On the answer \<open>s\<close> the step ends at once,
  with no error: the only events are the line that shows the step and the
  prompt, so nothing was dispatched. On the answer \<open>a\<close> \<open>AbortException\<close> is
  raised with the text \<open>1\<close>. After any other answer a step of kind manual runs no
  command either: its exit code stays 0, so the step ends with no error, no
  failure prompt and no further event.
\<close>

theorem manual_gate_answers:
  assumes "fst (get_resolved_value self w) = Inr v"
    and "get_type self = Inr t" and "t = ''manual'' \<or> interactive"
    and "stdin w = answer # rest"
  shows "(answer = ''s'' \<longrightarrow>
            fst (execute self interactive force w) = Inr () \<and>
            trace (snd (execute self interactive force w)) =
              trace w @ [Log ''notice'' (step_msg self v), Prompt proceed_prompt] \<and>
            stdin (snd (execute self interactive force w)) = rest) \<and>
         (answer = ''a'' \<longrightarrow>
            fst (execute self interactive force w) = Inl (AbortException ''1'') \<and>
            trace (snd (execute self interactive force w)) =
              trace w @ [Log ''notice'' (step_msg self v), Prompt proceed_prompt]) \<and>
         (t = ''manual'' \<longrightarrow> (\<forall>w'. dispatch self w' = (Inr 0, w'))) \<and>
         (t = ''manual'' \<and> answer \<noteq> ''s'' \<and> answer \<noteq> ''a'' \<longrightarrow>
            fst (execute self interactive force w) = Inr () \<and>
            trace (snd (execute self interactive force w)) =
              trace w @ [Log ''notice'' (step_msg self v), Prompt proceed_prompt] \<and>
            stdin (snd (execute self interactive force w)) = rest)"
proof -
  let ?w1 = "after_resolution self w"
  let ?w2 = "LOG ''notice'' (step_msg self v) ?w1"
  let ?w3 = "emit (Prompt proceed_prompt) (?w2\<lparr>stdin := rest\<rparr>)"
  have res: "get_resolved_value self w = (Inr v, ?w1)"
    using get_resolved_value_eq [of self w] assms(1) by simp
  have inp: "input_line proceed_prompt ?w2 = (Inr answer, ?w3)"
    by (rule input_line_Cons) (simp add: assms(4))
  have gate: "manual_gate self interactive ?w2 =
      (if answer = ''s'' then (Inr False, ?w3)
       else if answer = ''a'' then (Inl (AbortException (str_int 1)), ?w3)
       else (Inr True, ?w3))"
    using assms(2,3) inp by (auto simp: manual_gate_def)
  have one: "str_int 1 = ''1''"
    by (simp add: str_int_def str_nat.simps [of 1] digit_char_def)
  have tr: "trace ?w3 = trace w @ [Log ''notice'' (step_msg self v), Prompt proceed_prompt]"
    by (simp add: emit_def LOG_def)
  have st: "stdin ?w3 = rest" by simp
  have skip: "execute self interactive force w = (Inr (), ?w3)" if "answer = ''s''"
    using that res gate by (simp add: execute.simps [of self interactive force w])
  have abort: "execute self interactive force w = (Inl (AbortException ''1''), ?w3)"
    if "answer = ''a''"
    using that res gate one by (simp add: execute.simps [of self interactive force w])
  have disp: "dispatch self w' = (Inr 0, w')" if "t = ''manual''" for w'
    using that assms(2) by (simp add: dispatch_kind)
  have proceed: "execute self interactive force w = (Inr (), ?w3)"
    if "t = ''manual''" "answer \<noteq> ''s''" "answer \<noteq> ''a''"
    using that res gate disp [of ?w3] by (simp add: execute.simps [of self interactive force w])
  show ?thesis
    using skip abort proceed disp tr st by simp
qed

lemma sample_resolves_plain:
  "fst (get_resolved_value (sample_step k ''exit 5'') w) = Inr ''exit 5''"
  "fst (get_resolved_value (sample_step k ''exit 2'') w) = Inr ''exit 2''"
  "fst (get_resolved_value (sample_step k ''Restart the router'') w) = Inr ''Restart the router''"
  by (simp_all add: get_resolved_value_fst sample_step_def str_format_def)

theorem manual_gate_answers_witness:
  "fst (execute (sample_step ''manual'' ''Restart the router'') False False
         (sample_world\<lparr>stdin := [''s'', ''x'']\<rparr>)) = Inr () \<and>
   trace (snd (execute (sample_step ''manual'' ''Restart the router'') False False
         (sample_world\<lparr>stdin := [''s'', ''x'']\<rparr>))) =
     [Log ''notice'' (step_msg (sample_step ''manual'' ''Restart the router'') ''Restart the router''),
      Prompt proceed_prompt] \<and>
   fst (execute (sample_step ''local'' ''exit 5'') True False
         (sample_world\<lparr>stdin := [''a'']\<rparr>)) = Inl (AbortException ''1'') \<and>
   fst (execute (sample_step ''manual'' ''Restart the router'') False False
         (sample_world\<lparr>stdin := [''p'', ''x'']\<rparr>)) = Inr () \<and>
   stdin (snd (execute (sample_step ''manual'' ''Restart the router'') False False
         (sample_world\<lparr>stdin := [''p'', ''x'']\<rparr>))) = [''x'']"
proof -
  let ?m = "sample_step ''manual'' ''Restart the router''"
  let ?l = "sample_step ''local'' ''exit 5''"
  have tm: "get_type ?m = Inr ''manual''" by (simp add: get_type_def sample_step_def)
  have tl: "get_type ?l = Inr ''local''" by (simp add: get_type_def sample_step_def)
  have skip: "fst (execute ?m False False (sample_world\<lparr>stdin := [''s'', ''x'']\<rparr>)) = Inr () \<and>
      trace (snd (execute ?m False False (sample_world\<lparr>stdin := [''s'', ''x'']\<rparr>))) =
        trace (sample_world\<lparr>stdin := [''s'', ''x'']\<rparr>)
        @ [Log ''notice'' (step_msg ?m ''Restart the router''), Prompt proceed_prompt] \<and>
      stdin (snd (execute ?m False False (sample_world\<lparr>stdin := [''s'', ''x'']\<rparr>))) = [''x'']"
    by (rule manual_gate_answers [OF sample_resolves_plain(3) tm, of False
          "sample_world\<lparr>stdin := [''s'', ''x'']\<rparr>" "''s''" "[''x'']" False,
          THEN conjunct1, THEN mp]) simp_all
  have abort: "fst (execute ?l True False (sample_world\<lparr>stdin := [''a'']\<rparr>))
        = Inl (AbortException ''1'') \<and>
      trace (snd (execute ?l True False (sample_world\<lparr>stdin := [''a'']\<rparr>))) =
        trace (sample_world\<lparr>stdin := [''a'']\<rparr>)
        @ [Log ''notice'' (step_msg ?l ''exit 5''), Prompt proceed_prompt]"
    by (rule manual_gate_answers [OF sample_resolves_plain(1) tl, of True
          "sample_world\<lparr>stdin := [''a'']\<rparr>" "''a''" "[]" False,
          THEN conjunct2, THEN conjunct1, THEN mp]) simp_all
  have proceed: "fst (execute ?m False False (sample_world\<lparr>stdin := [''p'', ''x'']\<rparr>)) = Inr () \<and>
      trace (snd (execute ?m False False (sample_world\<lparr>stdin := [''p'', ''x'']\<rparr>))) =
        trace (sample_world\<lparr>stdin := [''p'', ''x'']\<rparr>)
        @ [Log ''notice'' (step_msg ?m ''Restart the router''), Prompt proceed_prompt] \<and>
      stdin (snd (execute ?m False False (sample_world\<lparr>stdin := [''p'', ''x'']\<rparr>))) = [''x'']"
    by (rule manual_gate_answers [OF sample_resolves_plain(3) tm, of False
          "sample_world\<lparr>stdin := [''p'', ''x'']\<rparr>" "''p''" "[''x'']" False,
          THEN conjunct2, THEN conjunct2, THEN conjunct2, THEN mp]) simp_all
  show ?thesis using skip abort proceed by (simp add: sample_world_def)
qed

subsection \<open>A local step\<close>

lemma build_command_eq:
  "fst (get_resolved_value self w) = Inr v \<Longrightarrow>
   build_command self path w = (Inr (command_text self path v), after_resolution self w)"
  using get_resolved_value_eq [of self w]
  by (simp add: build_command_def command_text_def)

lemma build_command_error:
  "fst (get_resolved_value self w) = Inl e \<Longrightarrow>
   build_command self path w = (Inl e, after_resolution self w)"
  using get_resolved_value_eq [of self w]
  by (simp add: build_command_def)

lemma run_local_command_completed:
  "run_results w (count_events is_run (trace w)) = Completed rc out \<Longrightarrow> \<not> assignment self \<Longrightarrow>
   run_local_command self cmd w =
     (Inr rc, emit (Run cmd) (LOG ''debug'' (''Executing: '' @ cmd) w))"
  by (simp add: run_local_command_def subprocess_run_def)

lemma run_local_command_interrupted:
  "run_results w (count_events is_run (trace w)) = Interrupted \<Longrightarrow>
   run_local_command self cmd w =
     (Inl KeyboardInterrupt, emit (Run cmd) (LOG ''debug'' (''Executing: '' @ cmd) w))"
  by (simp add: run_local_command_def subprocess_run_def)

lemma ran_locally_fields [simp]:
  "stdin (ran_locally self v w) = stdin w"
  "trace (ran_locally self v w) =
     trace w @ [Log ''debug'' (''Executing: '' @ command_text self IMPORT_PATH v),
                Run (command_text self IMPORT_PATH v)]"
  "CONSTANTS (ran_locally self v w) = CONSTANTS w"
  "next_ref (ran_locally self v w) = Suc (next_ref w)"
  "run_results (ran_locally self v w) = run_results w"
  "dicts (ran_locally self v w) r = (if r = next_ref w then merged_mapping self w else dicts w r)"
  by (simp_all add: ran_locally_def)

lemma local_action_completed:
  assumes "fst (get_resolved_value self w) = Inr v"
    and "run_results w (count_events is_run (trace w)) = Completed rc out"
    and "\<not> assignment self"
  shows "local_action self w = (Inr rc, ran_locally self v w)"
proof -
  have "run_local_command self (command_text self IMPORT_PATH v) (after_resolution self w) =
      (Inr rc, ran_locally self v w)"
    unfolding ran_locally_def
    by (rule run_local_command_completed) (simp_all add: assms)
  then show ?thesis
    by (simp add: local_action_def build_command_eq [OF assms(1)])
qed

subsection \<open>The failure gate\<close>

text \<open>
  Claim C3. When the step has passed the manual gate and its dispatch has
  yielded an exit code other than 0, a call with \<open>force\<close> set logs the failure and
  returns: nothing is read from the operator, no prompt is shown and no
  exception is raised.
\<close>

theorem force_absorbs_failure:
  assumes "get_resolved_value self w = (Inr v, w1)"
    and "manual_gate self interactive (LOG ''notice'' (step_msg self v) w1) = (Inr True, w2)"
    and "dispatch self w2 = (Inr return_code, w3)" and "return_code \<noteq> 0"
  shows "execute self interactive True w =
           (Inr (), LOG ''error'' (failed_msg self return_code) w3) \<and>
         stdin (snd (execute self interactive True w)) = stdin w3 \<and>
         trace (snd (execute self interactive True w)) =
           trace w3 @ [Log ''error'' (failed_msg self return_code)]"
proof -
  have "execute self interactive True w =
      (Inr (), LOG ''error'' (failed_msg self return_code) w3)"
    using assms by (simp add: execute.simps [of self interactive True w])
  then show ?thesis by simp
qed

lemma sample_resolved:
  "get_resolved_value (sample_step k ''exit 5'') w =
     (Inr ''exit 5'', after_resolution (sample_step k ''exit 5'') w)"
  using get_resolved_value_eq [of "sample_step k ''exit 5''" w]
  by (simp add: sample_resolves_plain)

theorem force_absorbs_failure_witness:
  "fst (execute (sample_step ''local'' ''exit 5'') False True
         (sample_world\<lparr>stdin := [''a''], run_results := (\<lambda>n. Completed 5 [])\<rparr>)) = Inr () \<and>
   stdin (snd (execute (sample_step ''local'' ''exit 5'') False True
         (sample_world\<lparr>stdin := [''a''], run_results := (\<lambda>n. Completed 5 [])\<rparr>))) = [''a''] \<and>
   count_events is_prompt (trace (snd (execute (sample_step ''local'' ''exit 5'') False True
         (sample_world\<lparr>stdin := [''a''], run_results := (\<lambda>n. Completed 5 [])\<rparr>)))) = 0"
proof -
  let ?c = "sample_step ''local'' ''exit 5''"
  let ?w = "sample_world\<lparr>stdin := [''a''], run_results := (\<lambda>n. Completed 5 [])\<rparr>"
  let ?w2 = "LOG ''notice'' (step_msg ?c ''exit 5'') (after_resolution ?c ?w)"
  have t: "get_type ?c = Inr ''local''" by (simp add: get_type_def sample_step_def)
  have gate: "manual_gate ?c False ?w2 = (Inr True, ?w2)"
    by (simp add: manual_gate_def t)
  have "local_action ?c ?w2 = (Inr 5, ran_locally ?c ''exit 5'' ?w2)"
  proof (rule local_action_completed [where out = "[]"])
    show "fst (get_resolved_value ?c ?w2) = Inr ''exit 5''"
      by (rule sample_resolves_plain(1))
    show "run_results ?w2 (count_events is_run (trace ?w2)) = Completed 5 []"
      by simp
    show "\<not> assignment ?c" by (simp add: sample_step_def)
  qed
  then have disp: "dispatch ?c ?w2 = (Inr 5, ran_locally ?c ''exit 5'' ?w2)"
    by (simp add: dispatch_kind [OF t])
  have five: "(5::int) \<noteq> 0" by simp
  note result = force_absorbs_failure [OF sample_resolved gate disp five]
  show ?thesis
    using result by (simp add: sample_world_def)
qed

lemma execute_failed:
  assumes "get_resolved_value self w = (Inr v, w1)"
    and "manual_gate self interactive (LOG ''notice'' (step_msg self v) w1) = (Inr True, w2)"
    and "dispatch self w2 = (Inr return_code, w3)" and "return_code \<noteq> 0"
    and "stdin w3 = answer # rest"
  shows "execute self interactive False w =
     (if answer = ''r'' then
        execute self interactive False
          (emit (Prompt failure_prompt)
             ((LOG ''error'' (failed_msg self return_code) w3)\<lparr>stdin := rest\<rparr>))
      else if answer = ''a'' then
        (Inl (AbortException (str_int return_code)),
         emit (Prompt failure_prompt)
           ((LOG ''error'' (failed_msg self return_code) w3)\<lparr>stdin := rest\<rparr>))
      else
        (Inr (),
         emit (Prompt failure_prompt)
           ((LOG ''error'' (failed_msg self return_code) w3)\<lparr>stdin := rest\<rparr>)))"
proof -
  have "input_line failure_prompt (LOG ''error'' (failed_msg self return_code) w3) =
      (Inr answer, emit (Prompt failure_prompt)
         ((LOG ''error'' (failed_msg self return_code) w3)\<lparr>stdin := rest\<rparr>))"
    by (rule input_line_Cons) (simp add: assms(5))
  then show ?thesis
    using assms(1-4) by (simp add: execute.simps [of self interactive False w])
qed

lemma failed_locally_fields [simp]:
  "stdin (failed_locally self v rc rest w) = rest"
  "count_events is_run (trace (failed_locally self v rc rest w)) = Suc (count_events is_run (trace w))"
  "CONSTANTS (failed_locally self v rc rest w) = CONSTANTS w"
  "next_ref (failed_locally self v rc rest w) = Suc (Suc (next_ref w))"
  "run_results (failed_locally self v rc rest w) = run_results w"
  "r < next_ref w \<Longrightarrow> dicts (failed_locally self v rc rest w) r = dicts w r"
  by (simp_all add: failed_locally_def)

lemma execute_local_failed:
  assumes "key self = ''local''" and "\<not> assignment self"
    and "fst (get_resolved_value self w) = Inr v" and "vars self < next_ref w"
    and "run_results w (count_events is_run (trace w)) = Completed return_code out"
    and "return_code \<noteq> 0" and "stdin w = answer # rest"
  shows "execute self False False w =
     (if answer = ''r'' then execute self False False (failed_locally self v return_code rest w)
      else if answer = ''a'' then
        (Inl (AbortException (str_int return_code)), failed_locally self v return_code rest w)
      else (Inr (), failed_locally self v return_code rest w))"
proof -
  let ?w1 = "after_resolution self w"
  let ?w2 = "LOG ''notice'' (step_msg self v) ?w1"
  have t: "get_type self = Inr ''local''" using assms(1) by (simp add: get_type_def)
  have res: "get_resolved_value self w = (Inr v, ?w1)"
    using get_resolved_value_eq [of self w] assms(3) by simp
  have gate: "manual_gate self False ?w2 = (Inr True, ?w2)"
    by (simp add: manual_gate_def t)
  have "fst (get_resolved_value self ?w2) = fst (get_resolved_value self w)"
    by (rule get_resolved_value_cong) (use assms(4) in simp_all)
  then have again: "fst (get_resolved_value self ?w2) = Inr v" using assms(3) by simp
  have "local_action self ?w2 = (Inr return_code, ran_locally self v ?w2)"
    by (rule local_action_completed [OF again _ assms(2), where out = out])
      (simp add: assms(5))
  then have disp: "dispatch self ?w2 = (Inr return_code, ran_locally self v ?w2)"
    by (simp add: dispatch_kind [OF t])
  have st: "stdin (ran_locally self v ?w2) = answer # rest" by (simp add: assms(7))
  show ?thesis
    using execute_failed [OF res gate disp assms(6) st]
    by (simp add: failed_locally_def)
qed

text \<open>
  Claim C2. Let the step have passed the manual gate and its dispatch have
  yielded an exit code other than 0, in a call with \<open>force\<close> unset; the failure is
  logged and the operator is asked. On the answer \<open>r\<close> the result is that of a
  whole new call of \<open>execute\<close> with the same \<open>interactive\<close> flag, in the world as it
  is after the prompt: the template is resolved again and, in interactive mode,
  the manual gate is entered again. On the answer \<open>a\<close> \<open>AbortException\<close> is raised
  with \<open>str\<close> of the exit code. On any other answer the step ends with no
  exception. In particular a local step without capture whose command exits
  with 2 twice, the operator answering \<open>r\<close> and then \<open>p\<close>, ends with no exception
  after exactly two runs of its command, both answers read.
\<close>

theorem failure_gate_answers:
  "(\<forall>v w1 w2 w3 return_code answer rest.
      get_resolved_value self w = (Inr v, w1) \<and>
      manual_gate self interactive (LOG ''notice'' (step_msg self v) w1) = (Inr True, w2) \<and>
      dispatch self w2 = (Inr return_code, w3) \<and> return_code \<noteq> 0 \<and>
      stdin w3 = answer # rest
      \<longrightarrow>
      (answer = ''r'' \<longrightarrow>
         execute self interactive False w =
           execute self interactive False
             (emit (Prompt failure_prompt)
                ((LOG ''error'' (failed_msg self return_code) w3)\<lparr>stdin := rest\<rparr>))) \<and>
      (answer = ''a'' \<longrightarrow>
         fst (execute self interactive False w) = Inl (AbortException (str_int return_code))) \<and>
      (answer \<noteq> ''r'' \<and> answer \<noteq> ''a'' \<longrightarrow>
         fst (execute self interactive False w) = Inr () \<and>
         stdin (snd (execute self interactive False w)) = rest)) \<and>
   (\<forall>v out1 out2 rest.
      key self = ''local'' \<and> \<not> assignment self \<and>
      fst (get_resolved_value self w) = Inr v \<and> vars self < next_ref w \<and>
      run_results w (count_events is_run (trace w)) = Completed 2 out1 \<and>
      run_results w (Suc (count_events is_run (trace w))) = Completed 2 out2 \<and>
      stdin w = ''r'' # ''p'' # rest
      \<longrightarrow>
      fst (execute self False False w) = Inr () \<and>
      count_events is_run (trace (snd (execute self False False w))) =
        count_events is_run (trace w) + 2 \<and>
      stdin (snd (execute self False False w)) = rest)"
proof (intro conjI allI impI)
  fix v w1 w2 w3 return_code answer rest
  assume h: "get_resolved_value self w = (Inr v, w1) \<and>
      manual_gate self interactive (LOG ''notice'' (step_msg self v) w1) = (Inr True, w2) \<and>
      dispatch self w2 = (Inr return_code, w3) \<and> return_code \<noteq> 0 \<and>
      stdin w3 = answer # rest"
  note e = execute_failed [of self w v w1 interactive w2 return_code w3 answer rest]
  {
    assume "answer = ''r''"
    then show "execute self interactive False w =
           execute self interactive False
             (emit (Prompt failure_prompt)
                ((LOG ''error'' (failed_msg self return_code) w3)\<lparr>stdin := rest\<rparr>))"
      using e h by simp
  }
  {
    assume "answer = ''a''"
    then show "fst (execute self interactive False w) = Inl (AbortException (str_int return_code))"
      using e h by simp
  }
  {
    assume a: "answer \<noteq> ''r'' \<and> answer \<noteq> ''a''"
    then show "fst (execute self interactive False w) = Inr ()"
      using e h by simp
    show "stdin (snd (execute self interactive False w)) = rest"
      using a e h by simp
  }
next
  fix v out1 out2 rest
  assume h: "key self = ''local'' \<and> \<not> assignment self \<and>
      fst (get_resolved_value self w) = Inr v \<and> vars self < next_ref w \<and>
      run_results w (count_events is_run (trace w)) = Completed 2 out1 \<and>
      run_results w (Suc (count_events is_run (trace w))) = Completed 2 out2 \<and>
      stdin w = ''r'' # ''p'' # rest"
  let ?W = "failed_locally self v 2 (''p'' # rest) w"
  let ?W' = "failed_locally self v 2 rest ?W"
  have two: "(2::int) \<noteq> 0" by simp
  have first: "execute self False False w = execute self False False ?W"
    using execute_local_failed [of self w v 2 out1 "''r''" "''p'' # rest"] h by simp
  have "fst (get_resolved_value self ?W) = fst (get_resolved_value self w)"
    by (rule get_resolved_value_cong) (use h in simp_all)
  then have res: "fst (get_resolved_value self ?W) = Inr v" using h by simp
  have second: "execute self False False ?W = (Inr (), ?W')"
    using execute_local_failed [of self ?W v 2 out2 "''p''" rest] h res by simp
  show "fst (execute self False False w) = Inr ()"
    using first second by simp
  show "count_events is_run (trace (snd (execute self False False w))) =
        count_events is_run (trace w) + 2"
    using first second by simp
  show "stdin (snd (execute self False False w)) = rest"
    using first second by simp
qed

theorem failure_gate_answers_witness:
  "fst (execute (sample_step ''local'' ''exit 2'') False False
         (sample_world\<lparr>stdin := [''r'', ''p''], run_results := (\<lambda>n. Completed 2 [])\<rparr>)) = Inr () \<and>
   count_events is_run (trace (snd (execute (sample_step ''local'' ''exit 2'') False False
         (sample_world\<lparr>stdin := [''r'', ''p''], run_results := (\<lambda>n. Completed 2 [])\<rparr>)))) = 2 \<and>
   fst (execute (sample_step ''local'' ''exit 2'') False False
         (sample_world\<lparr>stdin := [''a''], run_results := (\<lambda>n. Completed 2 [])\<rparr>))
     = Inl (AbortException ''2'')"
proof -
  let ?c = "sample_step ''local'' ''exit 2''"
  let ?w = "sample_world\<lparr>stdin := [''r'', ''p''], run_results := (\<lambda>n. Completed 2 [])\<rparr>"
  let ?u = "sample_world\<lparr>stdin := [''a''], run_results := (\<lambda>n. Completed 2 [])\<rparr>"
  let ?u2 = "LOG ''notice'' (step_msg ?c ''exit 2'') (after_resolution ?c ?u)"
  have t: "get_type ?c = Inr ''local''" by (simp add: get_type_def sample_step_def)
  have "key ?c = ''local'' \<and> \<not> assignment ?c \<and>
      fst (get_resolved_value ?c ?w) = Inr ''exit 2'' \<and> vars ?c < next_ref ?w \<and>
      run_results ?w (count_events is_run (trace ?w)) = Completed 2 [] \<and>
      run_results ?w (Suc (count_events is_run (trace ?w))) = Completed 2 [] \<and>
      stdin ?w = ''r'' # ''p'' # []"
    by (simp add: sample_resolves_plain) (simp add: sample_step_def sample_world_def)
  from failure_gate_answers [of ?c ?w False, THEN conjunct2, THEN spec, THEN spec, THEN spec,
      THEN spec, THEN mp, OF this]
  have twice: "fst (execute ?c False False ?w) = Inr () \<and>
      count_events is_run (trace (snd (execute ?c False False ?w))) =
        count_events is_run (trace ?w) + 2 \<and>
      stdin (snd (execute ?c False False ?w)) = []" .
  have res: "get_resolved_value ?c ?u = (Inr ''exit 2'', after_resolution ?c ?u)"
    using get_resolved_value_eq [of ?c ?u] by (simp add: sample_resolves_plain)
  have gate: "manual_gate ?c False ?u2 = (Inr True, ?u2)"
    by (simp add: manual_gate_def t)
  have "local_action ?c ?u2 = (Inr 2, ran_locally ?c ''exit 2'' ?u2)"
  proof (rule local_action_completed [where out = "[]"])
    show "fst (get_resolved_value ?c ?u2) = Inr ''exit 2''"
      by (rule sample_resolves_plain(2))
    show "run_results ?u2 (count_events is_run (trace ?u2)) = Completed 2 []"
      by simp
    show "\<not> assignment ?c" by (simp add: sample_step_def)
  qed
  then have disp: "dispatch ?c ?u2 = (Inr 2, ran_locally ?c ''exit 2'' ?u2)"
    by (simp add: dispatch_kind [OF t])
  have "get_resolved_value ?c ?u = (Inr ''exit 2'', after_resolution ?c ?u) \<and>
      manual_gate ?c False (LOG ''notice'' (step_msg ?c ''exit 2'') (after_resolution ?c ?u))
        = (Inr True, ?u2) \<and>
      dispatch ?c ?u2 = (Inr 2, ran_locally ?c ''exit 2'' ?u2) \<and> (2::int) \<noteq> 0 \<and>
      stdin (ran_locally ?c ''exit 2'' ?u2) = ''a'' # []"
    using res gate disp by simp
  from failure_gate_answers [of ?c ?u False, THEN conjunct1, THEN spec, THEN spec, THEN spec,
      THEN spec, THEN spec, THEN spec, THEN spec, THEN mp, OF this, THEN conjunct2, THEN conjunct1]
  have abort: "fst (execute ?c False False ?u) = Inl (AbortException (str_int 2))"
    by simp
  have "str_int 2 = ''2''"
    by (simp add: str_int_def str_nat.simps [of 2] digit_char_def)
  then show ?thesis using twice abort by (simp add: sample_world_def)
qed

end
